theory Spec2Isabelle
  imports Complex_Main "HOL-Library.Code_Target_Nat"
begin

section \<open>JavaScript strings\<close>

text \<open>
  A JavaScript string is a sequence of UTF-16 code units; \<open>length\<close>, \<open>indexOf\<close>,
  \<open>split('')\<close> and the regular expressions of the scripts (none carries the \<open>u\<close> flag)
  all work on code units. A string is therefore a list of code units, each a natural
  number below \<open>0x10000\<close>. ASCII literals are written with \<open>ascii\<close>; CJK characters
  are written by their code unit.
\<close>

type_synonym jschar = nat
type_synonym jsstring = "nat list"

definition ascii :: "string \<Rightarrow> jsstring" where
  "ascii s = map of_char s"

text \<open>JavaScript truthiness of a string: only the empty string is falsy.\<close>

definition truthy :: "jsstring \<Rightarrow> bool" where
  "truthy s = (s \<noteq> [])"

text \<open>
  Character classes. \<open>is_ws\<close> is the class \<open>\s\<close> of the regular expressions, which
  is also the set \<open>trim()\<close> removes: the white space and line terminator code units
  of ECMAScript. \<open>is_digit\<close> is \<open>\d\<close>, \<open>is_letter\<close> is \<open>[A-Za-z]\<close>.
\<close>

definition is_ws :: "jschar \<Rightarrow> bool" where
  "is_ws c = (c = 9 \<or> c = 10 \<or> c = 11 \<or> c = 12 \<or> c = 13 \<or> c = 32 \<or> c = 0xA0 \<or> c = 0x1680
     \<or> (0x2000 \<le> c \<and> c \<le> 0x200A) \<or> c = 0x2028 \<or> c = 0x2029 \<or> c = 0x202F \<or> c = 0x205F
     \<or> c = 0x3000 \<or> c = 0xFEFF)"

definition is_digit :: "jschar \<Rightarrow> bool" where
  "is_digit c = (48 \<le> c \<and> c \<le> 57)"

definition is_upper :: "jschar \<Rightarrow> bool" where
  "is_upper c = (65 \<le> c \<and> c \<le> 90)"

definition is_lower :: "jschar \<Rightarrow> bool" where
  "is_lower c = (97 \<le> c \<and> c \<le> 122)"

definition is_letter :: "jschar \<Rightarrow> bool" where
  "is_letter c = (is_upper c \<or> is_lower c)"

text \<open>
  \<open>toLowerCase\<close>. The model maps the ASCII capitals to their small letters and leaves
  every other code unit as it is. This is what \<open>toLowerCase\<close> does on text made of
  ASCII and of caseless scripts (CJK ideographs, kana, CJK and fullwidth punctuation);
  \<open>plain\<close> names that text, and a theorem whose truth depends on the case mapping of
  other letters carries it as a hypothesis.
\<close>

definition lower_char :: "jschar \<Rightarrow> jschar" where
  "lower_char c = (if is_upper c then c + 32 else c)"

definition toLowerCase :: "jsstring \<Rightarrow> jsstring" where
  "toLowerCase s = map lower_char s"



text \<open>
  Case-insensitive matching of a regular expression with the \<open>i\<close> flag and without
  the \<open>u\<close> flag compares canonicalised code units: a code unit is replaced by its
  upper case unless that would turn a non-ASCII unit into an ASCII one. Every pattern
  character of the scripts is an ASCII or a caseless character, and against those the
  comparison is decided by the ASCII upper case alone.
\<close>

definition canon :: "jschar \<Rightarrow> jschar" where
  "canon c = (if is_lower c then c - 32 else c)"

definition ci_eq :: "jsstring \<Rightarrow> jsstring \<Rightarrow> bool" where
  "ci_eq p s = (map canon p = map canon s)"

text \<open>\<open>s\<close> begins with the pattern word \<open>p\<close>, exactly or ignoring case.\<close>

definition starts_with :: "jsstring \<Rightarrow> jsstring \<Rightarrow> bool" where
  "starts_with p s = (take (length p) s = p)"

definition starts_with_ci :: "jsstring \<Rightarrow> jsstring \<Rightarrow> bool" where
  "starts_with_ci p s = (length p \<le> length s \<and> ci_eq p (take (length p) s))"

definition ends_with_ci :: "jsstring \<Rightarrow> jsstring \<Rightarrow> bool" where
  "ends_with_ci p s = (length p \<le> length s \<and> ci_eq p (drop (length s - length p) s))"

text \<open>\<open>s.indexOf(p)\<close> (\<open>None\<close> for \<open>-1\<close>) and \<open>s.includes(p)\<close>.\<close>

fun indexOf :: "jsstring \<Rightarrow> jsstring \<Rightarrow> nat option" where
  "indexOf p [] = (if p = [] then Some 0 else None)"
| "indexOf p (c # cs) =
     (if starts_with p (c # cs) then Some 0 else map_option Suc (indexOf p cs))"

definition js_includes :: "jsstring \<Rightarrow> jsstring \<Rightarrow> bool" where
  "js_includes s p = (indexOf p s \<noteq> None)"

definition trim :: "jsstring \<Rightarrow> jsstring" where
  "trim s = rev (dropWhile is_ws (rev (dropWhile is_ws s)))"

text \<open>\<open>s.replace(/\s+/g, '')\<close>: every white space unit is removed.\<close>

definition stripSpaces :: "jsstring \<Rightarrow> jsstring" where
  "stripSpaces s = filter (\<lambda>c. \<not> is_ws c) s"

text \<open>
  \<open>path.extname\<close> and \<open>path.basename(name, ext)\<close> of Node.js, on a base name: the
  names handed to the parsers come from \<open>path.basename(f)\<close> and contain no \<open>/\<close>
  (\<open>slash_free\<close>). The extension runs from the last dot to the end; there is none when
  the name has no dot, when its only dot is the first character, or when the name is
  \<open>..\<close>.
\<close>

definition slash_free :: "jsstring \<Rightarrow> bool" where
  "slash_free s = (47 \<notin> set s)"

definition lastIndexOfChar :: "jschar \<Rightarrow> jsstring \<Rightarrow> nat option" where
  "lastIndexOfChar c s =
     (if c \<in> set s then Some (length s - 1 - length (takeWhile (\<lambda>x. x \<noteq> c) (rev s))) else None)"

definition extname :: "jsstring \<Rightarrow> jsstring" where
  "extname p =
     (case lastIndexOfChar 46 p of
        None \<Rightarrow> []
      | Some i \<Rightarrow> if i = 0 \<or> p = [46, 46] then [] else drop i p)"

definition basename_ext :: "jsstring \<Rightarrow> jsstring \<Rightarrow> jsstring" where
  "basename_ext p ext =
     (if ext \<noteq> [] \<and> length ext \<le> length p
      then (if ext = p then []
            else if drop (length p - length ext) p = ext then take (length p - length ext) p
            else p)
      else p)"

section \<open>Insertion-ordered maps\<close>

text \<open>
  A JavaScript \<open>Map\<close> iterates in the order in which its keys were first inserted. The
  scripts only ever use the idiom
  \<^verbatim>\<open>if (!m.has(k)) m.set(k, []); m.get(k).push(v);\<close>
  which is \<open>map_push\<close> on an association list kept in insertion order.
\<close>

fun map_push :: "'k \<Rightarrow> 'v \<Rightarrow> ('k \<times> 'v list) list \<Rightarrow> ('k \<times> 'v list) list" where
  "map_push k v [] = [(k, [v])]"
| "map_push k v ((k', vs) # m) =
     (if k' = k then (k', vs @ [v]) # m else (k', vs) # map_push k v m)"

section \<open>The enhanced detector: data model\<close>

text \<open>
  One entry of \<open>fileInfos\<close> in \<open>check_duplicates_enhanced.js\<close> (\<open>run\<close>, the
  preprocessing step): \<open>{path, name, size, artist, title, key, lrcPath}\<close>.
  \<open>lrcPath\<close> is \<open>null\<close> or a path.
\<close>

record fileInfo =
  f_path :: jsstring
  f_name :: jsstring
  f_size :: nat
  f_artist :: jsstring
  f_title :: jsstring
  f_key :: jsstring
  f_lrcPath :: "jsstring option"

text \<open>An entry of \<open>exactDuplicates\<close>: \<open>{hash, size, files}\<close>.\<close>

record exactDup =
  ed_hash :: jsstring
  ed_size :: nat
  ed_files :: "fileInfo list"

text \<open>An entry of \<open>semanticDuplicates\<close>: \<open>{key, files}\<close>.\<close>

record semanticDup =
  sd_key :: jsstring
  sd_files :: "fileInfo list"

section \<open>The enhanced detector: configuration tables\<close>

text \<open>
  \<open>DESCRIPTIVE_SUFFIXES\<close> of \<open>check_duplicates_enhanced.js\<close>, in the order of the
  source. The CJK entries are, by code unit: accompaniment \<open>4F34 594F\<close>, concert
  \<open>6F14 5531 4F1A\<close>, on stage \<open>73B0 573A\<close>, version \<open>7248\<close>, and so on down to
  Mandarin \<open>56FD 8BED\<close>, Cantonese \<open>7CA4 8BED\<close>, Japanese \<open>65E5 8BED\<close>, English
  \<open>82F1 8BED\<close> and cover version \<open>7FFB 5531\<close>.
\<close>

definition DESCRIPTIVE_SUFFIXES :: "jsstring list" where
  "DESCRIPTIVE_SUFFIXES =
    [ascii ''live'', ascii ''remix'', ascii ''mix'', ascii ''cover'', ascii ''demo'',
     ascii ''acoustic'', ascii ''instrumental'', ascii ''dj'',
     [0x4F34, 0x594F], [0x6F14, 0x5531, 0x4F1A], [0x73B0, 0x573A], [0x7248],
     [0x5927, 0x5408, 0x5531], [0x5408, 0x5531], [0x72EC, 0x5531],
     [0x94A2, 0x7434, 0x7248], [0x5409, 0x4ED6, 0x7248], [0x7EAF, 0x97F3, 0x4E50],
     ascii ''karaoke'', ascii ''ktv'', ascii ''radio edit'',
     ascii ''remaster'', ascii ''remastered'', ascii ''bonus'', ascii ''edit'',
     ascii ''extended'', ascii ''short'',
     [0x86F0, 0x4F0F], [0x56FD, 0x8BED], [0x7CA4, 0x8BED], [0x65E5, 0x8BED],
     [0x82F1, 0x8BED], [0x7FFB, 0x5531]]"

text \<open>
  \<open>TRAD_TO_SIMP\<close>, the object literal of the source entry by entry (two keys are
  written twice there, with the same value). Each key and each value is one code unit.
\<close>

definition TRAD_TO_SIMP :: "(jschar \<times> jschar) list" where
  "TRAD_TO_SIMP =
    [(0x9F4A, 0x9F50), (0x5B78, 0x5B66), (0x83EF, 0x534E), (0x570B, 0x56FD), (0x611B, 0x7231),
     (0x6200, 0x604B), (0x5922, 0x68A6), (0x98A8, 0x98CE), (0x96F2, 0x4E91), (0x6642, 0x65F6),
     (0x9593, 0x95F4), (0x6771, 0x4E1C), (0x8ECA, 0x8F66), (0x99AC, 0x9A6C), (0x9CE5, 0x9E1F),
     (0x9B5A, 0x9C7C), (0x9577, 0x957F), (0x9580, 0x95E8), (0x958B, 0x5F00), (0x95DC, 0x5173),
     (0x807D, 0x542C), (0x8AAA, 0x8BF4), (0x8A71, 0x8BDD), (0x8A9E, 0x8BED), (0x7D05, 0x7EA2),
     (0x7DA0, 0x7EFF), (0x85CD, 0x84DD), (0x9EC3, 0x9EC4), (0x982D, 0x5934), (0x81C9, 0x8138),
     (0x9AD4, 0x4F53), (0x767C, 0x53D1), (0x7121, 0x65E0), (0x5F9E, 0x4ECE), (0x4F86, 0x6765),
     (0x904E, 0x8FC7), (0x88E1, 0x91CC), (0x982D, 0x5934), (0x8449, 0x53F6), (0x96FB, 0x7535),
     (0x8166, 0x8111), (0x6A5F, 0x673A), (0x66F8, 0x4E66), (0x756B, 0x753B), (0x8A69, 0x8BD7),
     (0x6B4C, 0x6B4C), (0x8072, 0x58F0), (0x97FF, 0x54CD), (0x6A02, 0x4E50), (0x6771, 0x4E1C),
     (0x898B, 0x89C1), (0x89AA, 0x4EB2), (0x5C0D, 0x5BF9), (0x9019, 0x8FD9), (0x88CF, 0x91CC),
     (0x8AB0, 0x8C01), (0x8B93, 0x8BA9), (0x9084, 0x8FD8), (0x5F8C, 0x540E), (0x96A8, 0x968F)]"

text \<open>
  The Roman numerals in the order in which \<open>normalizeRomanNumerals\<close> tries them
  (\<open>romans\<close>, longest first), each with its entry of \<open>ROMAN_TO_ARABIC\<close>.
\<close>

definition romans :: "(jsstring \<times> jsstring) list" where
  "romans =
    [(ascii ''VIII'', ascii ''8''), (ascii ''VII'', ascii ''7''), (ascii ''III'', ascii ''3''),
     (ascii ''IV'', ascii ''4''), (ascii ''VI'', ascii ''6''), (ascii ''IX'', ascii ''9''),
     (ascii ''II'', ascii ''2''), (ascii ''V'', ascii ''5''), (ascii ''X'', ascii ''10''),
     (ascii ''I'', ascii ''1'')]"

section \<open>The enhanced detector: string functions\<close>

text \<open>
  \<^verbatim>\<open>function toSimplified(str) { return str.split('').map(c => TRAD_TO_SIMP[c] || c).join(''); }\<close>
\<close>

definition simp_char :: "jschar \<Rightarrow> jschar" where
  "simp_char c = (case map_of TRAD_TO_SIMP c of None \<Rightarrow> c | Some v \<Rightarrow> v)"

definition toSimplified :: "jsstring \<Rightarrow> jsstring" where
  "toSimplified str = map simp_char str"

text \<open>
  \<^verbatim>\<open>
  romans.forEach(roman => {
      const regex = new RegExp(`(?<![A-Za-z])${roman}(?![A-Za-z])`, 'gi');
      result = result.replace(regex, ROMAN_TO_ARABIC[roman]);
  });
  \<close>
  \<open>roman_at R prev s\<close>: the expression matches at the head of \<open>s\<close>, where \<open>prev\<close> is
  the code unit before it (\<open>None\<close> at the start of the string). \<open>replaceRoman\<close> is the
  global replace: it scans from the left, and after a match goes on behind it.
\<close>

definition roman_at :: "jsstring \<Rightarrow> jschar option \<Rightarrow> jsstring \<Rightarrow> bool" where
  "roman_at R prev s =
     ((case prev of None \<Rightarrow> True | Some b \<Rightarrow> \<not> is_letter b)
      \<and> starts_with_ci R s
      \<and> (case drop (length R) s of [] \<Rightarrow> True | n # _ \<Rightarrow> \<not> is_letter n))"

function replaceRoman :: "jsstring \<Rightarrow> jsstring \<Rightarrow> jschar option \<Rightarrow> jsstring \<Rightarrow> jsstring" where
  "replaceRoman R d prev [] = []"
| "replaceRoman R d prev (c # cs) =
     (if R \<noteq> [] \<and> roman_at R prev (c # cs)
      then d @ replaceRoman R d (Some (last (take (length R) (c # cs)))) (drop (length R) (c # cs))
      else c # replaceRoman R d (Some c) cs)"
  by pat_completeness auto
termination
  by (relation "measure (\<lambda>(R, d, prev, s). length s)") auto

definition normalizeRomanNumerals :: "jsstring \<Rightarrow> jsstring" where
  "normalizeRomanNumerals str = foldl (\<lambda>result (roman, arabic). replaceRoman roman arabic None result) str romans"

text \<open>
  \<^verbatim>\<open>
  function removeTrackNumber(name) {
      return name
          .replace(/^[\d\-\.]+[\s\.\-]+/, '')
          .replace(/^\d+\./, '');
  }
  \<close>
  The first expression is two greedy runs. \<open>plus_plus A B s n\<close> tries the lengths of
  the first run from the longest (\<open>n\<close>) down to one, as backtracking does; at the first
  length after which a \<open>B\<close> unit stands, the second run takes all the \<open>B\<close> units it
  finds, and the result is the length of the match.
\<close>

fun plus_plus :: "(jschar \<Rightarrow> bool) \<Rightarrow> jsstring \<Rightarrow> nat \<Rightarrow> nat option" where
  "plus_plus B s 0 = None"
| "plus_plus B s (Suc i) =
     (case drop (Suc i) s of
        [] \<Rightarrow> plus_plus B s i
      | c # r \<Rightarrow> if B c then Some (Suc i + length (takeWhile B (c # r))) else plus_plus B s i)"

definition trackPrefix1 :: "jsstring \<Rightarrow> nat option" where
  "trackPrefix1 s =
     plus_plus (\<lambda>c. is_ws c \<or> c = 46 \<or> c = 45) s
       (length (takeWhile (\<lambda>c. is_digit c \<or> c = 45 \<or> c = 46) s))"

text \<open>\<open>/^\d+\./\<close>: the digits, then a dot.\<close>

definition trackPrefix2 :: "jsstring \<Rightarrow> nat option" where
  "trackPrefix2 s =
     (let n = length (takeWhile is_digit s)
      in if 0 < n \<and> starts_with [46] (drop n s) then Some (Suc n) else None)"

definition dropMatch :: "nat option \<Rightarrow> jsstring \<Rightarrow> jsstring" where
  "dropMatch m s = (case m of None \<Rightarrow> s | Some n \<Rightarrow> drop n s)"

definition removeTrackNumber :: "jsstring \<Rightarrow> jsstring" where
  "removeTrackNumber name =
     (let s = dropMatch (trackPrefix1 name) name in dropMatch (trackPrefix2 s) s)"

text \<open>
  \<^verbatim>\<open>
  const suffixPattern = new RegExp(
      `\\s*[<FF08>(]\\s*(${DESCRIPTIVE_SUFFIXES.join('|')})[^)<FF09>]*[)<FF09>]$`, 'i');
  \<close>
  (\<open><FF08>\<close> and \<open><FF09>\<close> stand for the fullwidth brackets, written as such in the
  source). \<open>suffixPattern s\<close>: the expression matches all of \<open>s\<close>. No
  suffix word begins with white space or with a bracket, so each \<open>\s*\<close> takes all the
  white space there is.
\<close>

definition is_open :: "jschar \<Rightarrow> bool" where
  "is_open c = (c = 0xFF08 \<or> c = 40)"

definition is_close :: "jschar \<Rightarrow> bool" where
  "is_close c = (c = 41 \<or> c = 0xFF09)"

text \<open>The end of the expression, \<open>[^)<FF09>]*[)<FF09>]$\<close>.\<close>

definition closingTail :: "jsstring \<Rightarrow> bool" where
  "closingTail t = (t \<noteq> [] \<and> is_close (last t) \<and> list_all (\<lambda>c. \<not> is_close c) (butlast t))"

definition suffixPattern :: "jsstring \<Rightarrow> bool" where
  "suffixPattern s =
     (case dropWhile is_ws s of
        [] \<Rightarrow> False
      | c # u \<Rightarrow>
          is_open c \<and>
          (let v = dropWhile is_ws u
           in list_ex (\<lambda>w. starts_with_ci w v \<and> closingTail (drop (length w) v))
                DESCRIPTIVE_SUFFIXES))"

text \<open>
  \<open>s.replace(re, '')\<close> for an expression \<open>re\<close> that is not global and ends in \<open>$\<close>:
  the first position from which \<open>re\<close> matches the rest of the string is found, and the
  string is cut there. \<open>M\<close> says whether \<open>re\<close> matches a whole string.
\<close>

fun firstMatch :: "(jsstring \<Rightarrow> bool) \<Rightarrow> jsstring \<Rightarrow> nat option" where
  "firstMatch M [] = (if M [] then Some 0 else None)"
| "firstMatch M (c # cs) = (if M (c # cs) then Some 0 else map_option Suc (firstMatch M cs))"

definition replaceTail :: "(jsstring \<Rightarrow> bool) \<Rightarrow> jsstring \<Rightarrow> jsstring" where
  "replaceTail M s = (case firstMatch M s of None \<Rightarrow> s | Some i \<Rightarrow> take i s)"

text \<open>
  \<^verbatim>\<open>
  let result = name;
  let prev;
  do {
      prev = result;
      result = result.replace(suffixPattern, '');
  } while (result !== prev);
  return result.trim();
  \<close>
  The loop is a partial function: \<open>None\<close> stands for a loop that does not return.
\<close>

partial_function (option) suffixLoop :: "jsstring \<Rightarrow> jsstring option" where
  "suffixLoop prev =
     (let result = replaceTail suffixPattern prev
      in if result \<noteq> prev then suffixLoop result else Some result)"

declare suffixLoop.simps [code]

definition removeDescriptiveSuffix :: "jsstring \<Rightarrow> jsstring option" where
  "removeDescriptiveSuffix name = map_option trim (suffixLoop name)"

text \<open>
  The result of \<open>parseSongInfo\<close>: \<open>{ artist, title, original }\<close>.
\<close>

record songInfo =
  si_artist :: jsstring
  si_title :: jsstring
  si_original :: jsstring

text \<open>\<open>/^\d+$/.test(s)\<close>\<close>

definition all_digits :: "jsstring \<Rightarrow> bool" where
  "all_digits s = (s \<noteq> [] \<and> list_all is_digit s)"

text \<open>
  The two splitting branches of \<open>parseSongInfo\<close>, which share their body but for the
  width of the separator:
  \<^verbatim>\<open>
  const possibleArtist = nameNoExt.substring(0, idx).trim();
  const possibleTitle = nameNoExt.substring(idx + 3).trim();
  if (!/^\d+$/.test(possibleArtist) && possibleArtist.length > 0) {
      artist = possibleArtist;
      title = possibleTitle;
  } else {
      title = nameNoExt;
  }
  \<close>
\<close>

definition splitAt :: "jsstring \<Rightarrow> nat \<Rightarrow> nat \<Rightarrow> jsstring \<times> jsstring" where
  "splitAt nameNoExt idx width =
     (let possibleArtist = trim (take idx nameNoExt);
          possibleTitle = trim (drop (idx + width) nameNoExt)
      in if \<not> all_digits possibleArtist \<and> 0 < length possibleArtist
         then (possibleArtist, possibleTitle)
         else ([], nameNoExt))"

text \<open>
  \<^verbatim>\<open>
  if (nameNoExt.includes(' - ')) { const idx = nameNoExt.indexOf(' - '); ... }
  else if (nameNoExt.includes('-') && !nameNoExt.startsWith('-')) {
      const idx = nameNoExt.indexOf('-'); ... }
  else { title = nameNoExt; }
  \<close>
  The pair is \<open>(artist, title)\<close>, with \<open>artist = ''\<close> where the source leaves it so.
\<close>

definition splitArtistTitle :: "jsstring \<Rightarrow> jsstring \<times> jsstring" where
  "splitArtistTitle nameNoExt =
     (case indexOf (ascii '' - '') nameNoExt of
        Some idx \<Rightarrow> splitAt nameNoExt idx 3
      | None \<Rightarrow>
          (case indexOf [45] nameNoExt of
             Some idx \<Rightarrow>
               if \<not> starts_with [45] nameNoExt then splitAt nameNoExt idx 1 else ([], nameNoExt)
           | None \<Rightarrow> ([], nameNoExt)))"

text \<open>
  \<open>defaultArtist || 'Unknown'\<close>; the argument may be missing (\<open>None\<close>) or empty.
\<close>

definition orUnknown :: "jsstring option \<Rightarrow> jsstring" where
  "orUnknown defaultArtist =
     (case defaultArtist of
        None \<Rightarrow> ascii ''Unknown''
      | Some a \<Rightarrow> if truthy a then a else ascii ''Unknown'')"

text \<open>
  \<^verbatim>\<open>
  function parseSongInfo(fileName, defaultArtist) {
      const ext = path.extname(fileName);
      let nameNoExt = path.basename(fileName, ext);
      nameNoExt = removeTrackNumber(nameNoExt);
      let artist = ''; let title = '';
      ... the split ...
      title = removeDescriptiveSuffix(title);
      if (!artist) { artist = defaultArtist || 'Unknown'; }
      return { artist, title, original: fileName };
  }
  \<close>
  The result is \<open>None\<close> when the suffix loop does not return.
\<close>

definition parseSongInfo :: "jsstring \<Rightarrow> jsstring option \<Rightarrow> songInfo option" where
  "parseSongInfo fileName defaultArtist =
     (let ext = extname fileName;
          nameNoExt = removeTrackNumber (basename_ext fileName ext);
          (artist, title) = splitArtistTitle nameNoExt
      in case removeDescriptiveSuffix title of
           None \<Rightarrow> None
         | Some title' \<Rightarrow>
             Some \<lparr>si_artist = (if \<not> truthy artist then orUnknown defaultArtist else artist),
                   si_title = title', si_original = fileName\<rparr>)"

text \<open>
  \<^verbatim>\<open>const COLLABORATION_SEPARATORS = /[<3001>&,\/<D7>x]|\s+feat\.?\s+|\s+ft\.?\s+|\s+with\s+/i;\<close>
  (\<open><3001>\<close> is the ideographic comma and \<open><D7>\<close> the multiplication sign.)
  \<open>wordSep w dot s\<close> is the length of a match of \<open>\s+w\.?\s+\<close> (or of \<open>\s+w\s+\<close> when
  \<open>dot\<close> is false) at the head of \<open>s\<close>; \<open>sepMatch s\<close> is the length of a match of the
  whole expression at the head of \<open>s\<close>, the alternatives tried in their order.
\<close>

definition wordSep :: "jsstring \<Rightarrow> bool \<Rightarrow> jsstring \<Rightarrow> nat option" where
  "wordSep w dot s =
     (let n = length (takeWhile is_ws s); r = drop n s
      in if 0 < n \<and> starts_with_ci w r
         then (let r2 = drop (length w) r;
                   k = (if dot \<and> starts_with [46] r2 then 1 else 0);
                   m = length (takeWhile is_ws (drop k r2))
               in if 0 < m then Some (n + length w + k + m) else None)
         else None)"

definition sepMatch :: "jsstring \<Rightarrow> nat option" where
  "sepMatch s =
     (case s of
        [] \<Rightarrow> None
      | c # _ \<Rightarrow>
          if c = 0x3001 \<or> c = 38 \<or> c = 44 \<or> c = 47 \<or> c = 0xD7 \<or> canon c = 88 then Some 1
          else (case wordSep (ascii ''feat'') True s of
                  Some n \<Rightarrow> Some n
                | None \<Rightarrow>
                    (case wordSep (ascii ''ft'') True s of
                       Some n \<Rightarrow> Some n
                     | None \<Rightarrow> wordSep (ascii ''with'') False s)))"

text \<open>
  \<open>fileArtist.split(COLLABORATION_SEPARATORS)\<close>: the string is scanned from the left;
  where the expression matches, the piece read so far is closed and the scan goes on
  behind the match (\<open>k\<close> counts the units of the match still to be skipped; a match is
  never empty).
\<close>

fun splitSep :: "nat \<Rightarrow> jsstring \<Rightarrow> jsstring \<Rightarrow> jsstring list" where
  "splitSep k acc [] = [acc]"
| "splitSep k acc (c # cs) =
     (if 0 < k then splitSep (k - 1) acc cs
      else (case sepMatch (c # cs) of
              Some n \<Rightarrow> acc # splitSep (n - 1) [] cs
            | None \<Rightarrow> splitSep 0 (acc @ [c]) cs))"

text \<open>
  \<^verbatim>\<open>
  function artistMatches(fileArtist, dirArtist) {
      if (!fileArtist || !dirArtist) return false;
      const normFile = toSimplified(fileArtist.toLowerCase().replace(/\s+/g, ''));
      const normDir = toSimplified(dirArtist.toLowerCase().replace(/\s+/g, ''));
      if (normFile === normDir) return true;
      const collaborators = fileArtist
          .split(COLLABORATION_SEPARATORS)
          .map(s => toSimplified(s.trim().toLowerCase().replace(/\s+/g, '')))
          .filter(s => s.length > 0);
      return collaborators.some(c => c === normDir || c.includes(normDir) || normDir.includes(c));
  }
  \<close>
\<close>

definition artistMatches :: "jsstring \<Rightarrow> jsstring \<Rightarrow> bool" where
  "artistMatches fileArtist dirArtist =
     (if \<not> truthy fileArtist \<or> \<not> truthy dirArtist then False
      else (let normFile = toSimplified (stripSpaces (toLowerCase fileArtist));
                normDir = toSimplified (stripSpaces (toLowerCase dirArtist))
            in if normFile = normDir then True
               else (let collaborators =
                           filter (\<lambda>s. 0 < length s)
                             (map (\<lambda>s. toSimplified (stripSpaces (toLowerCase (trim s))))
                                (splitSep 0 [] fileArtist))
                     in list_ex (\<lambda>c. c = normDir \<or> js_includes c normDir \<or> js_includes normDir c)
                          collaborators)))"

text \<open>
  The title part of the key, the three lines of \<open>getSongKey\<close>
  \<^verbatim>\<open>
  let normTitle = toSimplified(title);
  normTitle = normalizeRomanNumerals(normTitle);
  normTitle = normTitle.toLowerCase().replace(/\s+/g, '');
  \<close>
\<close>

definition normTitle :: "jsstring \<Rightarrow> jsstring" where
  "normTitle title = stripSpaces (toLowerCase (normalizeRomanNumerals (toSimplified title)))"

text \<open>
  \<^verbatim>\<open>
  function getSongKey(artist, title, dirArtist) {
      let finalArtist = artist;
      if (artistMatches(artist, dirArtist)) { finalArtist = dirArtist; }
      let normArtist = toSimplified(finalArtist);
      normArtist = normArtist.toLowerCase().replace(/\s+/g, '');
      ... normTitle ...
      return `${normArtist}|${normTitle}`;
  }
  \<close>
\<close>

definition getSongKey :: "jsstring \<Rightarrow> jsstring \<Rightarrow> jsstring \<Rightarrow> jsstring" where
  "getSongKey artist title dirArtist =
     (let finalArtist = (if artistMatches artist dirArtist then dirArtist else artist);
          normArtist = stripSpaces (toLowerCase (toSimplified finalArtist))
      in normArtist @ [124] @ normTitle title)"

text \<open>
  The preprocessing step of \<open>run\<close>. What the scan of the directory found about one audio
  file is given: its path, \<open>path.basename\<close> of the path, \<open>stat.size\<close>, and what
  \<open>findAssociatedLrc\<close> returned for it.
  \<^verbatim>\<open>
  const fileInfos = audioFiles.map(f => {
      const stat = fs.statSync(f);
      const songInfo = parseSongInfo(path.basename(f), dirArtist);
      const lrcPath = findAssociatedLrc(f, lrcIndex);
      return { path: f, name: path.basename(f), size: stat.size,
               artist: songInfo.artist, title: songInfo.title,
               key: getSongKey(songInfo.artist, songInfo.title, dirArtist),
               lrcPath: lrcPath };
  });
  \<close>
\<close>

record audioFile =
  a_path :: jsstring
  a_name :: jsstring
  a_size :: nat
  a_lrcPath :: "jsstring option"

definition fileInfoOf :: "jsstring \<Rightarrow> audioFile \<Rightarrow> fileInfo option" where
  "fileInfoOf dirArtist f =
     (case parseSongInfo (a_name f) (Some dirArtist) of
        None \<Rightarrow> None
      | Some songInfo \<Rightarrow>
          Some \<lparr>f_path = a_path f, f_name = a_name f, f_size = a_size f,
                f_artist = si_artist songInfo, f_title = si_title songInfo,
                f_key = getSongKey (si_artist songInfo) (si_title songInfo) dirArtist,
                f_lrcPath = a_lrcPath f\<rparr>)"

definition fileInfosOf :: "jsstring \<Rightarrow> audioFile list \<Rightarrow> fileInfo list option" where
  "fileInfosOf dirArtist audioFiles = those (map (fileInfoOf dirArtist) audioFiles)"

section \<open>The song key scripts: stripping bracketed suffixes\<close>

text \<open>
  \<open>test_song_key.js\<close> (and, with the same text, \<open>hot_songs.js\<close> and
  \<open>find_orphan_lrcs.js\<close>) has its own \<open>removeDescriptiveSuffix\<close>; its suffix list is
  the one of the enhanced detector without the entry \<open>86F0 4F0F\<close>.
  \<^verbatim>\<open>
  do {
      prev = result;
      result = result.replace(/\s*\[[^\]]*\]\s*$/i, '');
      const suffixPattern = new RegExp(
          `\\s*[<FF08>(]\\s*([0-9a-zA-Z${DESCRIPTIVE_SUFFIXES.join('')}<5E74><7248>\\s\\-\\u4e00-\\u9fff]*)[^)<FF09>]*[)<FF09>]\\s*$`,
          'i');
      result = result.replace(suffixPattern, '');
  } while (result !== prev);
  return result.trim();
  \<close>
\<close>

definition DESCRIPTIVE_SUFFIXES_sk :: "jsstring list" where
  "DESCRIPTIVE_SUFFIXES_sk =
    [ascii ''live'', ascii ''remix'', ascii ''mix'', ascii ''cover'', ascii ''demo'',
     ascii ''acoustic'', ascii ''instrumental'', ascii ''dj'',
     [0x4F34, 0x594F], [0x6F14, 0x5531, 0x4F1A], [0x73B0, 0x573A], [0x7248],
     [0x5927, 0x5408, 0x5531], [0x5408, 0x5531], [0x72EC, 0x5531],
     [0x94A2, 0x7434, 0x7248], [0x5409, 0x4ED6, 0x7248], [0x7EAF, 0x97F3, 0x4E50],
     ascii ''karaoke'', ascii ''ktv'', ascii ''radio edit'',
     ascii ''remaster'', ascii ''remastered'', ascii ''bonus'', ascii ''edit'',
     ascii ''extended'', ascii ''short'',
     [0x56FD, 0x8BED], [0x7CA4, 0x8BED], [0x65E5, 0x8BED], [0x82F1, 0x8BED], [0x7FFB, 0x5531]]"

text \<open>
  \<open>/\s*\[[^\]]*\]\s*$/i\<close> matches all of \<open>s\<close>: white space, an opening square bracket,
  units other than the closing bracket, the closing bracket, white space.
\<close>

definition bracketPattern :: "jsstring \<Rightarrow> bool" where
  "bracketPattern s =
     (case dropWhile is_ws s of
        [] \<Rightarrow> False
      | c # u \<Rightarrow>
          c = 91 \<and>
          (case dropWhile (\<lambda>x. x \<noteq> 93) u of
             [] \<Rightarrow> False
           | d # w \<Rightarrow> list_all is_ws w))"

text \<open>
  The character class of the second expression, under the \<open>i\<close> flag, and the expression
  itself: white space, an opening bracket, white space, units of the class, units other
  than a closing bracket, a closing bracket, white space. Each starred part takes all it
  can: what it leaves must be a closing bracket, which none of the parts accepts.
\<close>

definition suffixClass :: "jschar \<Rightarrow> bool" where
  "suffixClass c =
     (is_digit c \<or> is_letter c \<or> canon c \<in> set (map canon (concat DESCRIPTIVE_SUFFIXES_sk))
      \<or> c = 0x5E74 \<or> c = 0x7248 \<or> is_ws c \<or> c = 45 \<or> (0x4E00 \<le> c \<and> c \<le> 0x9FFF))"

definition parenPattern :: "jsstring \<Rightarrow> bool" where
  "parenPattern s =
     (case dropWhile is_ws s of
        [] \<Rightarrow> False
      | c # u \<Rightarrow>
          is_open c \<and>
          (case dropWhile (\<lambda>x. \<not> is_close x) (dropWhile suffixClass (dropWhile is_ws u)) of
             [] \<Rightarrow> False
           | d # w \<Rightarrow> list_all is_ws w))"

partial_function (option) suffixLoop_sk :: "jsstring \<Rightarrow> jsstring option" where
  "suffixLoop_sk prev =
     (let result = replaceTail parenPattern (replaceTail bracketPattern prev)
      in if result \<noteq> prev then suffixLoop_sk result else Some result)"

declare suffixLoop_sk.simps [code]

definition removeDescriptiveSuffix_sk :: "jsstring \<Rightarrow> jsstring option" where
  "removeDescriptiveSuffix_sk name = map_option trim (suffixLoop_sk name)"

section \<open>The shared utilities: the filename parser\<close>

text \<open>
  \<open>parseSongInfo\<close> of \<open>check_duplicates_utils.js\<close>, the parser that the move script
  imports. Its first step:
  \<^verbatim>\<open>
  nameNoExt = nameNoExt.replace(/^(\d+[\.\-]?\s+)/, '');
  nameNoExt = nameNoExt.replace(/^\d+\./, '');
  \<close>
  In the first expression the digits are followed by an optional dot or dash and then by
  white space; a dot or dash that is there has to be taken, since it is not white space.
\<close>

definition trackPrefix_utils :: "jsstring \<Rightarrow> nat option" where
  "trackPrefix_utils s =
     (let n = length (takeWhile is_digit s);
          r = drop n s;
          k = (if starts_with [46] r \<or> starts_with [45] r then 1 else 0);
          m = length (takeWhile is_ws (drop k r))
      in if 0 < n \<and> 0 < m then Some (n + k + m) else None)"

definition nameNoExt_utils :: "jsstring \<Rightarrow> jsstring" where
  "nameNoExt_utils fileName =
     (let nameNoExt = basename_ext fileName (extname fileName);
          nameNoExt = dropMatch (trackPrefix_utils nameNoExt) nameNoExt
      in dropMatch (trackPrefix2 nameNoExt) nameNoExt)"

text \<open>
  \<open>const parts = s.split(sep); ... parts[0] ... parts[1]\<close> for a string \<open>s\<close> that
  contains \<open>sep\<close>: the text before the first \<open>sep\<close>, and the text between the first and
  the second \<open>sep\<close> (or up to the end).
\<close>

definition firstTwoParts :: "jsstring \<Rightarrow> jsstring \<Rightarrow> (jsstring \<times> jsstring) option" where
  "firstTwoParts sep s =
     (case indexOf sep s of
        None \<Rightarrow> None
      | Some i \<Rightarrow>
          (let rest = drop (i + length sep) s
           in Some (take i s, case indexOf sep rest of None \<Rightarrow> rest | Some j \<Rightarrow> take j rest)))"

text \<open>
  \<open>nameNoExt.match(/^(.+?)[<FF08>(](.+?)[)<FF09>]$/)\<close>: the dot matches every unit but a
  line terminator. The first group is lazy, so it ends at the first opening bracket,
  not at index 0, that still leaves a unit for the second group; the second group runs
  up to the closing bracket that ends the string. The result is the two groups.
\<close>

definition is_line_terminator :: "jschar \<Rightarrow> bool" where
  "is_line_terminator c = (c = 10 \<or> c = 13 \<or> c = 0x2028 \<or> c = 0x2029)"

definition parenMatch :: "jsstring \<Rightarrow> (jsstring \<times> jsstring) option" where
  "parenMatch s =
     (let n = length s
      in if 4 \<le> n \<and> is_close (last s) \<and> \<not> list_ex is_line_terminator (butlast s)
         then (case find (\<lambda>i. is_open (s ! i)) [1..<n - 2] of
                 None \<Rightarrow> None
               | Some i \<Rightarrow> Some (take i s, take (n - i - 2) (drop (Suc i) s)))
         else None)"

text \<open>
  The three patterns, in their order; the result is \<open>(artist, title)\<close> as a branch of
  the source assigns them, and \<open>None\<close> when no branch assigns anything.
  \<^verbatim>\<open>
  if (nameNoExt.includes(' - ')) {
      const parts = nameNoExt.split(' - ');
      if (parts.length >= 2) { artist = parts[0].trim(); title = parts[1].trim(); }
  } else if (nameNoExt.includes('-')) {
      const parts = nameNoExt.split('-');
      if (parts.length >= 2) { artist = parts[0].trim(); title = parts[1].trim(); }
  } else if (/[<FF08>(]/.test(nameNoExt) && /[)<FF09>]/.test(nameNoExt)) {
      const match = nameNoExt.match(/^(.+?)[<FF08>(](.+?)[)<FF09>]$/);
      if (match) { title = match[1].trim(); artist = match[2].trim(); }
  }
  \<close>
\<close>

definition patterns_utils :: "jsstring \<Rightarrow> (jsstring \<times> jsstring) option" where
  "patterns_utils nameNoExt =
     (case firstTwoParts (ascii '' - '') nameNoExt of
        Some (p0, p1) \<Rightarrow> Some (trim p0, trim p1)
      | None \<Rightarrow>
          (case firstTwoParts [45] nameNoExt of
             Some (p0, p1) \<Rightarrow> Some (trim p0, trim p1)
           | None \<Rightarrow>
               if list_ex is_open nameNoExt \<and> list_ex is_close nameNoExt
               then (case parenMatch nameNoExt of
                       None \<Rightarrow> None
                     | Some (g1, g2) \<Rightarrow> Some (trim g2, trim g1))
               else None))"

text \<open>
  \<^verbatim>\<open>
  const suffixRegex = /[<FF08>(](Live|Mix|Remix|Cover|DJ|<4F34><594F>|<6F14><5531><4F1A>|<7248>)[)<FF09>]$/i;
  if (suffixRegex.test(title)) { title = title.replace(suffixRegex, '').trim(); }
  \<close>
  \<open>tagPattern s\<close>: the expression matches all of \<open>s\<close>.
\<close>

definition shortTags :: "jsstring list" where
  "shortTags = [ascii ''Live'', ascii ''Mix'', ascii ''Remix'', ascii ''Cover'', ascii ''DJ'',
                [0x4F34, 0x594F], [0x6F14, 0x5531, 0x4F1A], [0x7248]]"

definition tagPattern :: "jsstring \<Rightarrow> bool" where
  "tagPattern s =
     (case s of
        [] \<Rightarrow> False
      | c # u \<Rightarrow>
          is_open c \<and>
          list_ex (\<lambda>w. starts_with_ci w u \<and> (case drop (length w) u of [d] \<Rightarrow> is_close d | _ \<Rightarrow> False))
            shortTags)"

definition stripTag :: "jsstring \<Rightarrow> jsstring" where
  "stripTag title =
     (if firstMatch tagPattern title \<noteq> None then trim (replaceTail tagPattern title) else title)"

text \<open>
  \<^verbatim>\<open>
  function parseSongInfo(fileName, defaultArtist) {
      ... nameNoExt ...
      let artist = ''; let title = '';
      ... the patterns ...
      if (!title) title = nameNoExt;
      ... the tag ...
      if (!artist || artist.toLowerCase() === 'unknown') {
          if (defaultArtist) { artist = defaultArtist; } else { artist = 'Unknown'; }
      }
      return { artist: artist, title: title, original: fileName };
  }
  \<close>
\<close>

definition parseSongInfo_utils :: "jsstring \<Rightarrow> jsstring option \<Rightarrow> songInfo" where
  "parseSongInfo_utils fileName defaultArtist =
     (let nameNoExt = nameNoExt_utils fileName;
          (artist, title) = (case patterns_utils nameNoExt of None \<Rightarrow> ([], []) | Some found \<Rightarrow> found);
          title = (if \<not> truthy title then nameNoExt else title);
          title = stripTag title;
          artist = (if \<not> truthy artist \<or> toLowerCase artist = ascii ''unknown''
                    then orUnknown defaultArtist else artist)
      in \<lparr>si_artist = artist, si_title = title, si_original = fileName\<rparr>)"

section \<open>The move script: Pass 2\<close>

text \<open>
  The script that moves the losers away at once (its \<open>run\<close>) works on
  \<open>{ path, size, name }\<close> and keys the files itself. \<open>processed\<close> holds the paths that
  Pass 1 has moved.
  \<^verbatim>\<open>
  const audioRegex = /\.(mp3|m4a|flac|wav|wma|ape)$/i;
  fileInfos.forEach(f => {
      if (!audioRegex.test(f.name)) return;
      if (processed.has(f.path)) return;
      const info = parseSongInfo(f.name);
      if (!info.title || info.title === 'Unknown') return;
      const cleanArtist = info.artist.toLowerCase().replace(/\s+/g, '');
      const cleanTitle = info.title.toLowerCase().replace(/\s+/g, '');
      let key = '';
      if (cleanArtist && cleanArtist !== 'unknown') key = `${cleanArtist}|${cleanTitle}`;
      else if (cleanTitle.length > 4) key = `unknown|${cleanTitle}`;
      else return;
      if (!songMap.has(key)) songMap.set(key, []);
      songMap.get(key).push(f);
  });
  \<close>
\<close>

record movedFile =
  m_path :: jsstring
  m_size :: nat
  m_name :: jsstring

definition audioRegex :: "jsstring \<Rightarrow> bool" where
  "audioRegex name =
     list_ex (\<lambda>e. ends_with_ci e name)
       [ascii ''.mp3'', ascii ''.m4a'', ascii ''.flac'', ascii ''.wav'', ascii ''.wma'', ascii ''.ape'']"

definition keyOf_mv :: "jsstring set \<Rightarrow> movedFile \<Rightarrow> jsstring option" where
  "keyOf_mv processed f =
     (if \<not> audioRegex (m_name f) then None
      else if m_path f \<in> processed then None
      else (let info = parseSongInfo_utils (m_name f) None
            in if \<not> truthy (si_title info) \<or> si_title info = ascii ''Unknown'' then None
               else (let cleanArtist = stripSpaces (toLowerCase (si_artist info));
                         cleanTitle = stripSpaces (toLowerCase (si_title info))
                     in if truthy cleanArtist \<and> cleanArtist \<noteq> ascii ''unknown''
                        then Some (cleanArtist @ [124] @ cleanTitle)
                        else if 4 < length cleanTitle then Some (ascii ''unknown|'' @ cleanTitle)
                        else None)))"

definition songMap_mv :: "jsstring set \<Rightarrow> movedFile list \<Rightarrow> (jsstring \<times> movedFile list) list" where
  "songMap_mv processed fileInfos =
     foldl (\<lambda>m f. case keyOf_mv processed f of None \<Rightarrow> m | Some key \<Rightarrow> map_push key f m) [] fileInfos"

text \<open>\<open>for (const [key, group] of songMap) { if (group.length <= 1) continue; ... }\<close>\<close>

definition semanticGroups_mv :: "jsstring set \<Rightarrow> movedFile list \<Rightarrow> (jsstring \<times> movedFile list) list" where
  "semanticGroups_mv processed fileInfos =
     filter (\<lambda>(key, grp). \<not> length grp \<le> 1) (songMap_mv processed fileInfos)"

section \<open>Pass 1: exact duplicates (size, then MD5)\<close>

text \<open>
  \<open>getFileHash\<close> reads the file and returns the hex digest, or \<open>null\<close> when the file
  cannot be read. The file system is outside the model: the function from paths to
  digests is the parameter \<open>H\<close>.

  \<^verbatim>\<open>
  const sizeMap = new Map();
  fileInfos.forEach(f => {
      if (!sizeMap.has(f.size)) sizeMap.set(f.size, []);
      sizeMap.get(f.size).push(f);
  });
  \<close>
\<close>

definition sizeMap :: "fileInfo list \<Rightarrow> (nat \<times> fileInfo list) list" where
  "sizeMap fileInfos = foldl (\<lambda>m f. map_push (f_size f) f m) [] fileInfos"

text \<open>
  \<^verbatim>\<open>const sizeGroups = [...sizeMap.entries()].filter(([size, group]) => group.length > 1 && size > 0);\<close>
\<close>

definition sizeGroups :: "fileInfo list \<Rightarrow> (nat \<times> fileInfo list) list" where
  "sizeGroups fileInfos =
     filter (\<lambda>(sz, grp). length grp > 1 \<and> sz > 0) (sizeMap fileInfos)"

text \<open>
  \<^verbatim>\<open>
  const hashMap = new Map();
  group.forEach(f => {
      const hash = getFileHash(f.path);
      if (hash) {
          if (!hashMap.has(hash)) hashMap.set(hash, []);
          hashMap.get(hash).push(f);
      }
  });
  \<close>
\<close>

definition hashMap :: "(jsstring \<Rightarrow> jsstring option) \<Rightarrow> fileInfo list \<Rightarrow> (jsstring \<times> fileInfo list) list" where
  "hashMap H grp =
     foldl (\<lambda>m f. case H (f_path f) of
                     None \<Rightarrow> m
                   | Some hash \<Rightarrow> if truthy hash then map_push hash f m else m) [] grp"

text \<open>
  \<^verbatim>\<open>
  for (const [size, group] of sizeGroups) {
      ...
      for (const [hash, sameFiles] of hashMap) {
          if (sameFiles.length > 1) {
              exactDuplicates.push({ hash, size, files: sameFiles });
          }
      }
  }
  \<close>
\<close>

definition exactOfGroup :: "(jsstring \<Rightarrow> jsstring option) \<Rightarrow> nat \<times> fileInfo list \<Rightarrow> exactDup list" where
  "exactOfGroup H sg =
     map (\<lambda>(hash, sameFiles). \<lparr>ed_hash = hash, ed_size = fst sg, ed_files = sameFiles\<rparr>)
       (filter (\<lambda>(hash, sameFiles). length sameFiles > 1) (hashMap H (snd sg)))"

definition exactDuplicates :: "(jsstring \<Rightarrow> jsstring option) \<Rightarrow> fileInfo list \<Rightarrow> exactDup list" where
  "exactDuplicates H fileInfos = concat (map (exactOfGroup H) (sizeGroups fileInfos))"

section \<open>Pass 2: semantic duplicates (artist and title key)\<close>

text \<open>
  \<^verbatim>\<open>
  const exactDupPaths = new Set();
  exactDuplicates.forEach(d => {
      d.files.forEach(f => exactDupPaths.add(f.path));
  });
  \<close>
  Only \<open>has\<close> is ever asked of this set, so the list of the added paths stands for it.
\<close>

definition exactDupPaths :: "exactDup list \<Rightarrow> jsstring list" where
  "exactDupPaths eds = concat (map (\<lambda>d. map f_path (ed_files d)) eds)"

text \<open>
  \<^verbatim>\<open>
  const songMap = new Map();
  fileInfos.forEach(f => {
      // (comment of the source: skip files already in an exact group? No, semantic
      //  duplicates are reported as well)
      if (f.title && f.key) {
          if (!songMap.has(f.key)) songMap.set(f.key, []);
          songMap.get(f.key).push(f);
      }
  });
  \<close>
\<close>

definition songMap :: "fileInfo list \<Rightarrow> (jsstring \<times> fileInfo list) list" where
  "songMap fileInfos =
     foldl (\<lambda>m f. if truthy (f_title f) \<and> truthy (f_key f) then map_push (f_key f) f m else m)
       [] fileInfos"

text \<open>
  \<^verbatim>\<open>const ed = exactDuplicates.find(e => e.files.some(ef => ef.path === f.path));\<close>
\<close>

definition findExact :: "exactDup list \<Rightarrow> fileInfo \<Rightarrow> exactDup option" where
  "findExact eds f = find (\<lambda>e. list_ex (\<lambda>ef. f_path ef = f_path f) (ed_files e)) eds"

text \<open>
  \<^verbatim>\<open>
  const uniqueHashes = new Set();
  ...
  group.forEach(f => {
      const ed = exactDuplicates.find(...);
      if (ed) uniqueHashes.add(ed.hash);
  });
  \<close>
  The set is a duplicate-free list (\<open>List.insert\<close> adds an element only when it is
  absent); its \<open>size\<close> is the length of that list.
\<close>

definition uniqueHashes :: "exactDup list \<Rightarrow> fileInfo list \<Rightarrow> jsstring list" where
  "uniqueHashes eds grp =
     foldl (\<lambda>u f. case findExact eds f of None \<Rightarrow> u | Some ed \<Rightarrow> List.insert (ed_hash ed) u)
       [] grp"

text \<open>
  The test that makes the loop \<open>continue\<close> without reporting the group:
  \<^verbatim>\<open>
  const allInExact = group.every(f => exactDupPaths.has(f.path));
  const uniqueHashes = new Set();
  if (allInExact) {
      group.forEach(...);
      if (uniqueHashes.size <= 1) {
          continue;
      }
  }
  \<close>
\<close>

definition skipSemantic :: "exactDup list \<Rightarrow> fileInfo list \<Rightarrow> bool" where
  "skipSemantic eds grp =
     (let allInExact = list_all (\<lambda>f. f_path f \<in> set (exactDupPaths eds)) grp
      in allInExact \<and> length (uniqueHashes eds grp) \<le> 1)"

text \<open>
  \<^verbatim>\<open>
  for (const [key, group] of songMap) {
      if (group.length > 1) {
          ... continue when skipped ...
          semanticDuplicates.push({ key, files: group });
      }
  }
  \<close>
\<close>

definition semanticOf :: "exactDup list \<Rightarrow> fileInfo list \<Rightarrow> semanticDup list" where
  "semanticOf eds fileInfos =
     map (\<lambda>(key, grp). \<lparr>sd_key = key, sd_files = grp\<rparr>)
       (filter (\<lambda>(key, grp). length grp > 1 \<and> \<not> skipSemantic eds grp) (songMap fileInfos))"

definition semanticDuplicates :: "(jsstring \<Rightarrow> jsstring option) \<Rightarrow> fileInfo list \<Rightarrow> semanticDup list" where
  "semanticDuplicates H fileInfos = semanticOf (exactDuplicates H fileInfos) fileInfos"

section \<open>Ranking\<close>

text \<open>
  The characters of the test \<open>/[...]/.test(name)\<close> in \<open>getScore\<close>: the traditional
  forms that the script takes as a sign of a name in traditional Chinese (the first 36
  keys of \<open>TRAD_TO_SIMP\<close>).
\<close>

definition traditionalMarks :: "jschar list" where
  "traditionalMarks =
    [0x9F4A, 0x5B78, 0x83EF, 0x570B, 0x611B, 0x6200, 0x5922, 0x98A8, 0x96F2, 0x6642, 0x9593, 0x6771,
     0x8ECA, 0x99AC, 0x9CE5, 0x9B5A, 0x9577, 0x9580, 0x958B, 0x95DC, 0x807D, 0x8AAA, 0x8A71, 0x8A9E,
     0x7D05, 0x7DA0, 0x85CD, 0x9EC3, 0x982D, 0x81C9, 0x9AD4, 0x767C, 0x7121, 0x5F9E, 0x4F86, 0x904E]"

text \<open>
  \<^verbatim>\<open>
  function getScore(fileInfo) {
      let score = 0;
      const name = fileInfo.name;
      if (name.includes(' - ')) score += 100;
      if (!/[...]/.test(name)) { score += 20; }
      if (fileInfo.size) { score += (fileInfo.size / 1024 / 1024); }
      if (/\.flac$/i.test(name)) score += 50;
      if (/\.ape$/i.test(name)) score += 40;
      if (/\.wav$/i.test(name)) score += 30;
      return score;
  }
  \<close>
  The score is a JavaScript number, a double. It is modelled as a rational, and the
  model is the code for every file smaller than \<open>2^52\<close> bytes: dividing the size by
  1024 twice is exact in binary floating point, and every sum on the way is a multiple
  of \<open>2^-20\<close> below \<open>2^33\<close>, which a double holds exactly. From about \<open>2^53\<close> bytes
  on the source rounds the sums and the model does not; a statement about the value of
  the score therefore carries the bound on the size.
\<close>

definition getScore :: "fileInfo \<Rightarrow> rat" where
  "getScore fileInfo =
     (let name = f_name fileInfo;
          score = 0;
          score = (if js_includes name (ascii '' - '') then score + 100 else score);
          score = (if \<not> list_ex (\<lambda>c. c \<in> set traditionalMarks) name then score + 20 else score);
          score = (if f_size fileInfo \<noteq> 0 then score + of_nat (f_size fileInfo) / 1024 / 1024 else score);
          score = (if ends_with_ci (ascii ''.flac'') name then score + 50 else score);
          score = (if ends_with_ci (ascii ''.ape'') name then score + 40 else score);
          score = (if ends_with_ci (ascii ''.wav'') name then score + 30 else score)
      in score)"

text \<open>
  \<open>Array.prototype.sort(cmp)\<close> is stable (ECMAScript 2019): for a comparator that is
  a consistent ordering, the result is the sorted arrangement in which elements that
  compare equal keep their order. \<open>js_sort\<close> computes it by insertion from the right:
  an element is put in front of the first element that it does not have to follow.
\<close>

fun sort_insert :: "('a \<Rightarrow> 'a \<Rightarrow> rat) \<Rightarrow> 'a \<Rightarrow> 'a list \<Rightarrow> 'a list" where
  "sort_insert cmp x [] = [x]"
| "sort_insert cmp x (y # ys) = (if cmp x y \<le> 0 then x # y # ys else y # sort_insert cmp x ys)"

definition js_sort :: "('a \<Rightarrow> 'a \<Rightarrow> rat) \<Rightarrow> 'a list \<Rightarrow> 'a list" where
  "js_sort cmp xs = foldr (sort_insert cmp) xs []"

text \<open>\<^verbatim>\<open>d.files.sort((a, b) => getScore(b) - getScore(a));\<close>\<close>

definition rank :: "fileInfo list \<Rightarrow> fileInfo list" where
  "rank files = js_sort (\<lambda>a b. getScore b - getScore a) files"

text \<open>
  The copy mark that the comparator of the basic checker (\<open>check_duplicates.js\<close>) looks
  for, \<open>/(<526F><672C>|copy|<62F7><8D1D>)/i.test(name)\<close>: the name contains \<open>copy\<close> in any
  case, or one of the two Chinese words for a copy.
\<close>

definition hasCopyMark :: "jsstring \<Rightarrow> bool" where
  "hasCopyMark name =
     (js_includes name [0x526F, 0x672C] \<or> js_includes (map canon name) (ascii ''COPY'')
      \<or> js_includes name [0x62F7, 0x8D1D])"

section \<open>The cleanup script\<close>

text \<open>
  The lines of the generated script. \<open>Mkdir d\<close> is the line \<open>mkdir -p "./d"\<close> and
  \<open>Move p d\<close> is the line \<open>mv "./p" "./d/" 2>/dev/null || true\<close>; every other line
  is \<open>Text\<close> with the line itself.
\<close>

datatype scriptLine = Text jsstring | Mkdir jsstring | Move jsstring jsstring

text \<open>\<open>String(n)\<close> for a non-negative integer, and \<open>String(n).padStart(3, '0')\<close>.\<close>

function decimal :: "nat \<Rightarrow> jsstring" where
  "decimal n = (if n < 10 then [48 + n] else decimal (n div 10) @ [48 + n mod 10])"
  by pat_completeness auto
termination
  by (relation "measure id") auto

definition pad3 :: "nat \<Rightarrow> jsstring" where
  "pad3 n = replicate (3 - length (decimal n)) 48 @ decimal n"

text \<open>
  \<^verbatim>\<open>function safeDirName(name) { return name.replace(/[\/\\:*?"<>|]/g, '_').substring(0, 50); }\<close>
\<close>

definition safeDirName :: "jsstring \<Rightarrow> jsstring" where
  "safeDirName name =
     take 50 (map (\<lambda>c. if c \<in> set [47, 92, 58, 42, 63, 34, 60, 62, 124] then 95 else c) name)"

text \<open>\<open>key.split('|')\<close>: the pieces between the bars.\<close>

fun splitBar :: "jsstring \<Rightarrow> jsstring \<Rightarrow> jsstring list" where
  "splitBar acc [] = [acc]"
| "splitBar acc (c # cs) = (if c = 124 then acc # splitBar [] cs else splitBar (acc @ [c]) cs)"

text \<open>
  The lines for the members that are moved away:
  \<^verbatim>\<open>
  d.files.slice(1).forEach(f => {
      const relPath = path.relative(targetDir, f.path);
      lines.push(`mv "./${relPath}" "./${groupDir}/" 2>/dev/null || true`);
      if (f.lrcPath) {
          const lrcRelPath = path.relative(targetDir, f.lrcPath);
          lines.push(`mv "./${lrcRelPath}" "./${groupDir}/" 2>/dev/null || true`);
      }
  });
  \<close>
  \<open>rel\<close> is \<open>path.relative(targetDir, _)\<close>.
\<close>

definition lrcLines :: "(jsstring \<Rightarrow> jsstring) \<Rightarrow> jsstring \<Rightarrow> fileInfo \<Rightarrow> scriptLine list" where
  "lrcLines rel groupDir f =
     (case f_lrcPath f of
        None \<Rightarrow> []
      | Some lrcPath \<Rightarrow> if truthy lrcPath then [Move (rel lrcPath) groupDir] else [])"

definition moveLines :: "(jsstring \<Rightarrow> jsstring) \<Rightarrow> jsstring \<Rightarrow> fileInfo list \<Rightarrow> scriptLine list" where
  "moveLines rel groupDir files =
     concat (map (\<lambda>f. Move (rel (f_path f)) groupDir # lrcLines rel groupDir f) (tl files))"

text \<open>
  The block of one exact group, \<open>idx\<close> its index in \<open>exactDuplicates\<close>:
  \<^verbatim>\<open>
  d.files.sort((a, b) => getScore(b) - getScore(a));
  const groupDir = `${tempDir}/exact/group_${String(idx + 1).padStart(3, '0')}`;
  lines.push(`# [<7EC4> ${idx + 1}] ${d.files[0].title || 'Unknown'}`);
  lines.push(`mkdir -p "./${groupDir}"`);
  ... the moves ...
  lines.push('');
  \<close>
  A group has at least two files, so \<open>d.files[0]\<close> is there; for an empty group the
  source would throw, and the block is \<open>None\<close>.
\<close>

definition groupTag :: "nat \<Rightarrow> jsstring" where
  "groupTag idx = ascii ''# ['' @ [0x7EC4] @ ascii '' '' @ decimal (idx + 1) @ ascii ''] ''"

definition exactBlock :: "(jsstring \<Rightarrow> jsstring) \<Rightarrow> nat \<times> exactDup \<Rightarrow> scriptLine list option" where
  "exactBlock rel p =
     (let idx = fst p; files = rank (ed_files (snd p));
          groupDir = ascii ''_duplicates_temp/exact/group_'' @ pad3 (idx + 1)
      in case files of
           [] \<Rightarrow> None
         | keep # _ \<Rightarrow>
             Some ([Text (groupTag idx @ (if truthy (f_title keep) then f_title keep else ascii ''Unknown'')),
                    Mkdir groupDir]
                   @ moveLines rel groupDir files @ [Text []]))"

text \<open>
  The block of one semantic group:
  \<^verbatim>\<open>
  d.files.sort((a, b) => getScore(b) - getScore(a));
  const [artist, title] = d.key.split('|');
  const safeTitle = safeDirName(title);
  const groupDir = `${tempDir}/semantic/group_${String(idx + 1).padStart(3, '0')}_${safeTitle}`;
  lines.push(`# [<7EC4> ${idx + 1}] ${artist} - ${title}`);
  lines.push(`mkdir -p "./${groupDir}"`);
  ... the moves ...
  lines.push('');
  \<close>
  A key without a bar leaves \<open>title\<close> undefined and \<open>safeDirName\<close> throws: the block
  is \<open>None\<close>. (The keys of \<open>getSongKey\<close> all have a bar.)
\<close>

definition semanticBlock :: "(jsstring \<Rightarrow> jsstring) \<Rightarrow> nat \<times> semanticDup \<Rightarrow> scriptLine list option" where
  "semanticBlock rel p =
     (let idx = fst p; files = rank (sd_files (snd p))
      in case splitBar [] (sd_key (snd p)) of
           artist # title # _ \<Rightarrow>
             (let groupDir = ascii ''_duplicates_temp/semantic/group_'' @ pad3 (idx + 1) @ [95] @ safeDirName title
              in Some ([Text (groupTag idx @ artist @ ascii '' - '' @ title), Mkdir groupDir]
                       @ moveLines rel groupDir files @ [Text []]))
         | _ \<Rightarrow> None)"

text \<open>All blocks of a list of groups, or \<open>None\<close> when one of them throws.\<close>

definition blocks :: "('g \<Rightarrow> scriptLine list option) \<Rightarrow> 'g list \<Rightarrow> scriptLine list option" where
  "blocks block gs = map_option concat (those (map block gs))"

text \<open>
  The fixed lines: the head of the script, the two section banners and the final
  \<open>echo\<close> lines (comments and messages in Chinese; \<open>now\<close> is
  \<open>new Date().toLocaleString()\<close>).
\<close>

definition banner :: jsstring where
  "banner = ascii ''# '' @ replicate 39 0x2550"

definition scriptHead :: "jsstring \<Rightarrow> jsstring \<Rightarrow> scriptLine list" where
  "scriptHead targetDir now =
    [Text (ascii ''#!/bin/bash''),
     Text (ascii ''# '' @ [0x91CD, 0x590D, 0x6587, 0x4EF6, 0x6E05, 0x7406, 0x811A, 0x672C] @ ascii '' (''
           @ [0x81EA, 0x52A8, 0x751F, 0x6210] @ ascii '')''),
     Text (ascii ''# '' @ [0x751F, 0x6210, 0x65F6, 0x95F4] @ ascii '': '' @ now),
     Text (ascii ''# '' @ [0x626B, 0x63CF, 0x76EE, 0x5F55] @ ascii '': '' @ targetDir),
     Text (ascii ''#''),
     Text (ascii ''# '' @ [0x26A0, 0xFE0F] @ ascii ''  ''
           @ [0x6B64, 0x811A, 0x672C, 0x5C06, 0x6587, 0x4EF6, 0x79FB, 0x52A8, 0x5230]
           @ ascii '' _duplicates_temp '' @ [0x76EE, 0x5F55, 0xFF0C, 0x4E0D, 0x4F1A, 0x5220, 0x9664]),
     Text (ascii ''# '' @ [0x8BF7, 0x68C0, 0x67E5, 0x540E, 0x624B, 0x52A8, 0x5220, 0x9664, 0x4E34, 0x65F6,
                          0x76EE, 0x5F55]),
     Text [],
     Text (ascii ''set -e''),
     Text [],
     Text (ascii ''cd '' @ [34] @ targetDir @ [34]),
     Text []]"

definition exactBanner :: "scriptLine list" where
  "exactBanner =
    [Text banner,
     Text (ascii ''# '' @ [0x5B8C, 0x5168, 0x91CD, 0x590D] @ ascii '' (''
           @ [0x5185, 0x5BB9, 0x5B8C, 0x5168, 0x76F8, 0x540C] @ ascii '')''),
     Text banner,
     Text []]"

definition semanticBanner :: "scriptLine list" where
  "semanticBanner =
    [Text banner,
     Text (ascii ''# '' @ [0x8BED, 0x4E49, 0x91CD, 0x590D] @ ascii '' (''
           @ [0x540C, 0x540D, 0x6B4C, 0x66F2, 0x4E0D, 0x540C, 0x7248, 0x672C] @ ascii '')''),
     Text banner,
     Text []]"

definition scriptTail :: "scriptLine list" where
  "scriptTail =
    [Text (ascii ''echo '' @ [34, 34]),
     Text (ascii ''echo '' @ [34, 0x2705] @ ascii '' '' @ [0x6E05, 0x7406, 0x5B8C, 0x6210, 0xFF01, 34]),
     Text (ascii ''echo '' @ [34, 0xD83D, 0xDCC1] @ ascii '' ''
           @ [0x91CD, 0x590D, 0x6587, 0x4EF6, 0x5DF2, 0x79FB, 0x52A8, 0x5230] @ ascii '': _duplicates_temp''
           @ [34]),
     Text (ascii ''echo '' @ [34, 0x8BF7, 0x68C0, 0x67E5, 0x540E, 0x624B, 0x52A8, 0x5220, 0x9664, 0x4E34,
                              0x65F6, 0x76EE, 0x5F55, 34])]"

text \<open>
  Part D of \<open>run\<close>, reached when there is a group of either kind. The report (part C)
  has by then sorted the files of every group in place, and part D sorts them again.
  \<^verbatim>\<open>
  if (exactDuplicates.length > 0) { ... banner ...; exactDuplicates.forEach((d, idx) => { ... }); }
  if (semanticDuplicates.length > 0) { ... banner ...; semanticDuplicates.forEach((d, idx) => { ... }); }
  \<close>
\<close>

definition reportSorted :: "exactDup list \<times> semanticDup list \<Rightarrow> exactDup list \<times> semanticDup list" where
  "reportSorted gs =
     (map (\<lambda>d. d\<lparr>ed_files := rank (ed_files d)\<rparr>) (fst gs),
      map (\<lambda>d. d\<lparr>sd_files := rank (sd_files d)\<rparr>) (snd gs))"

definition cleanupScript ::
  "jsstring \<Rightarrow> jsstring \<Rightarrow> (jsstring \<Rightarrow> jsstring) \<Rightarrow> exactDup list \<Rightarrow> semanticDup list
     \<Rightarrow> scriptLine list option" where
  "cleanupScript targetDir now rel exactDuplicates0 semanticDuplicates0 =
     (let (exacts, semantics) = reportSorted (exactDuplicates0, semanticDuplicates0)
      in case blocks (exactBlock rel) (enumerate 0 exacts) of
           None \<Rightarrow> None
         | Some es \<Rightarrow>
             (case blocks (semanticBlock rel) (enumerate 0 semantics) of
                None \<Rightarrow> None
              | Some ss \<Rightarrow>
                  Some (scriptHead targetDir now
                        @ (if exacts \<noteq> [] then exactBanner @ es else [])
                        @ (if semantics \<noteq> [] then semanticBanner @ ss else [])
                        @ scriptTail)))"

section \<open>Runs of letters\<close>






section \<open>A sample run\<close>

text \<open>
  A directory \<open>/music/Beyond\<close> (so \<open>dirArtist\<close> is \<open>Beyond\<close>) with three audio files:
  two copies of one recording and a live recording of the same song. The second copy
  has a lyric file beside it. \<open>sampleHash\<close> gives the digests of the three files.
\<close>

definition sampleFiles :: "audioFile list" where
  "sampleFiles =
    [\<lparr>a_path = ascii ''/music/Beyond/cd1/Beyond - Song.mp3'', a_name = ascii ''Beyond - Song.mp3'',
      a_size = 5242880, a_lrcPath = None\<rparr>,
     \<lparr>a_path = ascii ''/music/Beyond/cd2/Beyond - Song.mp3'', a_name = ascii ''Beyond - Song.mp3'',
      a_size = 5242880, a_lrcPath = Some (ascii ''/music/Beyond/cd2/Beyond - Song.lrc'')\<rparr>,
     \<lparr>a_path = ascii ''/music/Beyond/Song (Live).flac'', a_name = ascii ''Song (Live).flac'',
      a_size = 31457280, a_lrcPath = None\<rparr>]"

definition sampleHash :: "jsstring \<Rightarrow> jsstring option" where
  "sampleHash p =
     (if p = ascii ''/music/Beyond/cd1/Beyond - Song.mp3'' \<or> p = ascii ''/music/Beyond/cd2/Beyond - Song.mp3''
      then Some (ascii ''0cc175b9c0f1b6a831c399e269772661'')
      else if p = ascii ''/music/Beyond/Song (Live).flac''
      then Some (ascii ''92eb5ffee6ae2fec3ad71c777531578f'')
      else None)"

text \<open>The \<open>fileInfos\<close> that the preprocessing step computes for them.\<close>

definition sampleInfos :: "fileInfo list" where
  "sampleInfos =
    [\<lparr>f_path = ascii ''/music/Beyond/cd1/Beyond - Song.mp3'', f_name = ascii ''Beyond - Song.mp3'',
      f_size = 5242880, f_artist = ascii ''Beyond'', f_title = ascii ''Song'',
      f_key = ascii ''beyond|song'', f_lrcPath = None\<rparr>,
     \<lparr>f_path = ascii ''/music/Beyond/cd2/Beyond - Song.mp3'', f_name = ascii ''Beyond - Song.mp3'',
      f_size = 5242880, f_artist = ascii ''Beyond'', f_title = ascii ''Song'',
      f_key = ascii ''beyond|song'', f_lrcPath = Some (ascii ''/music/Beyond/cd2/Beyond - Song.lrc'')\<rparr>,
     \<lparr>f_path = ascii ''/music/Beyond/Song (Live).flac'', f_name = ascii ''Song (Live).flac'',
      f_size = 31457280, f_artist = ascii ''Beyond'', f_title = ascii ''Song'',
      f_key = ascii ''beyond|song'', f_lrcPath = None\<rparr>]"

text \<open>
  A second directory listing: a file and a copy of it, as a file manager names it. The
  copy comes first in the listing (a space sorts before a dot).
\<close>

definition copyFiles :: "audioFile list" where
  "copyFiles =
    [\<lparr>a_path = ascii ''/music/Beyond/Song copy.mp3'', a_name = ascii ''Song copy.mp3'',
      a_size = 4194304, a_lrcPath = None\<rparr>,
     \<lparr>a_path = ascii ''/music/Beyond/Song.mp3'', a_name = ascii ''Song.mp3'',
      a_size = 4194304, a_lrcPath = None\<rparr>]"

definition copyHash :: "jsstring \<Rightarrow> jsstring option" where
  "copyHash p = Some (ascii ''4a8a08f09d37b73795649038408b5f33'')"

definition copyInfos :: "fileInfo list" where
  "copyInfos =
    [\<lparr>f_path = ascii ''/music/Beyond/Song copy.mp3'', f_name = ascii ''Song copy.mp3'',
      f_size = 4194304, f_artist = ascii ''Beyond'', f_title = ascii ''Song copy'',
      f_key = ascii ''beyond|songcopy'', f_lrcPath = None\<rparr>,
     \<lparr>f_path = ascii ''/music/Beyond/Song.mp3'', f_name = ascii ''Song.mp3'',
      f_size = 4194304, f_artist = ascii ''Beyond'', f_title = ascii ''Song'',
      f_key = ascii ''beyond|song'', f_lrcPath = None\<rparr>]"





text \<open>The same four names as the move script sees them.\<close>

definition mvFiles :: "movedFile list" where
  "mvFiles =
    [\<lparr>m_path = ascii ''/a/05.mp3'', m_size = 3145728, m_name = ascii ''05.mp3''\<rparr>,
     \<lparr>m_path = ascii ''/b/05.mp3'', m_size = 4194304, m_name = ascii ''05.mp3''\<rparr>,
     \<lparr>m_path = ascii ''/a/Unknown - abc.mp3'', m_size = 3145728, m_name = ascii ''Unknown - abc.mp3''\<rparr>,
     \<lparr>m_path = ascii ''/a/Beyond - abc.mp3'', m_size = 3145728, m_name = ascii ''Beyond - abc.mp3''\<rparr>,
     \<lparr>m_path = ascii ''/b/Beyond - abc.flac'', m_size = 20971520, m_name = ascii ''Beyond - abc.flac''\<rparr>]"

section \<open>Properties of the insertion-ordered map\<close>

lemma map_push_keys:
  "(k', vs) \<in> set (map_push k v m) \<Longrightarrow> k' = k \<or> k' \<in> fst ` set m"
  by (induction m) (auto split: if_splits simp: rev_image_eqI)

lemma map_push_members:
  "(k', vs) \<in> set (map_push k v m) \<Longrightarrow> x \<in> set vs \<Longrightarrow>
     (x = v \<and> k' = k) \<or> (\<exists>ws. (k', ws) \<in> set m \<and> x \<in> set ws)"
proof (induction m)
  case Nil
  then show ?case by simp
next
  case (Cons p m)
  obtain k0 v0 where p: "p = (k0, v0)" by (cases p)
  show ?case
  proof (cases "k0 = k")
    case True
    with Cons.prems p have "(k', vs) = (k, v0 @ [v]) \<or> (k', vs) \<in> set m" by simp
    then show ?thesis
    proof
      assume "(k', vs) = (k, v0 @ [v])"
      with Cons.prems(2) True p show ?thesis by auto
    next
      assume "(k', vs) \<in> set m"
      with Cons.prems(2) show ?thesis by auto
    qed
  next
    case False
    with Cons.prems p have "(k', vs) = (k0, v0) \<or> (k', vs) \<in> set (map_push k v m)" by simp
    then show ?thesis
    proof
      assume "(k', vs) = (k0, v0)"
      with Cons.prems(2) p show ?thesis by auto
    next
      assume "(k', vs) \<in> set (map_push k v m)"
      from Cons.IH [OF this Cons.prems(2)] show ?thesis by auto
    qed
  qed
qed

lemma foldl_map_push_inv:
  assumes "\<And>k vs x. (k, vs) \<in> set m \<Longrightarrow> x \<in> set vs \<Longrightarrow> P k x"
    and "\<And>x k. x \<in> set xs \<Longrightarrow> g x = Some k \<Longrightarrow> P k x"
    and "(k, vs) \<in> set (foldl (\<lambda>m x. case g x of None \<Rightarrow> m | Some k \<Rightarrow> map_push k x m) m xs)"
    and "x \<in> set vs"
  shows "P k x"
  using assms
proof (induction xs arbitrary: m)
  case Nil
  then show ?case by simp
next
  case (Cons y ys)
  show ?case
  proof (cases "g y")
    case None
    with Cons.prems(3) have "(k, vs) \<in> set (foldl (\<lambda>m x. case g x of None \<Rightarrow> m | Some k \<Rightarrow> map_push k x m) m ys)"
      by simp
    then show ?thesis
      using Cons.IH [of m] Cons.prems(1,2,4) by auto
  next
    case (Some ky)
    with Cons.prems(3) have *: "(k, vs) \<in> set (foldl (\<lambda>m x. case g x of None \<Rightarrow> m | Some k \<Rightarrow> map_push k x m) (map_push ky y m) ys)"
      by simp
    have inv: "\<And>k vs x. (k, vs) \<in> set (map_push ky y m) \<Longrightarrow> x \<in> set vs \<Longrightarrow> P k x"
    proof -
      fix k' vs' x'
      assume "(k', vs') \<in> set (map_push ky y m)" and "x' \<in> set vs'"
      from map_push_members [OF this]
      show "P k' x'"
        using Cons.prems(1) Cons.prems(2) [of y ky] Some by auto
    qed
    show ?thesis
      using Cons.IH [of "map_push ky y m", OF inv _ * Cons.prems(4)] Cons.prems(2) by auto
  qed
qed

lemma sample_fileInfos: "fileInfosOf (ascii ''Beyond'') sampleFiles = Some sampleInfos"
  by code_simp

text \<open>Grouping, with the key of an element optional (no key: the element is skipped).\<close>

lemma group_members:
  assumes "(k, vs) \<in> set (foldl (\<lambda>m x. case g x of None \<Rightarrow> m | Some k \<Rightarrow> map_push k x m) [] xs)"
    and "x \<in> set vs"
  shows "g x = Some k \<and> x \<in> set xs"
  using foldl_map_push_inv [where m = "[]" and P = "\<lambda>k x. g x = Some k \<and> x \<in> set xs"
      and g = g and xs = xs and k = k and vs = vs and x = x] assms
  by auto

lemma sizeMap_members:
  assumes "(sz, grp) \<in> set (sizeMap fileInfos)" and "f \<in> set grp"
  shows "f_size f = sz \<and> f \<in> set fileInfos"
proof -
  have "sizeMap fileInfos =
      foldl (\<lambda>m x. case Some (f_size x) of None \<Rightarrow> m | Some k \<Rightarrow> map_push k x m) [] fileInfos"
    by (simp add: sizeMap_def)
  with assms group_members [where g = "\<lambda>f. Some (f_size f)" and xs = fileInfos and k = sz and vs = grp and x = f]
  show ?thesis by simp
qed

lemma hashMap_members:
  assumes "(h, fs) \<in> set (hashMap H grp)" and "f \<in> set fs"
  shows "H (f_path f) = Some h \<and> h \<noteq> [] \<and> f \<in> set grp"
proof -
  let ?g = "\<lambda>f. case H (f_path f) of None \<Rightarrow> None | Some h \<Rightarrow> if truthy h then Some h else None"
  have "hashMap H grp = foldl (\<lambda>m x. case ?g x of None \<Rightarrow> m | Some k \<Rightarrow> map_push k x m) [] grp"
    unfolding hashMap_def
    by (rule arg_cong [where f = "\<lambda>F. foldl F [] grp"]) (auto simp: fun_eq_iff split: option.splits)
  with assms group_members [where g = ?g and xs = grp and k = h and vs = fs and x = f]
  show ?thesis by (auto simp: truthy_def split: option.splits if_splits)
qed

lemma songMap_members:
  assumes "(k, grp) \<in> set (songMap fileInfos)" and "f \<in> set grp"
  shows "f_key f = k \<and> f_title f \<noteq> [] \<and> f \<in> set fileInfos"
proof -
  let ?g = "\<lambda>f. if truthy (f_title f) \<and> truthy (f_key f) then Some (f_key f) else None"
  have "songMap fileInfos = foldl (\<lambda>m x. case ?g x of None \<Rightarrow> m | Some k \<Rightarrow> map_push k x m) [] fileInfos"
    unfolding songMap_def
    by (rule arg_cong [where f = "\<lambda>F. foldl F [] fileInfos"]) (auto simp: fun_eq_iff)
  with assms group_members [where g = ?g and xs = fileInfos and k = k and vs = grp and x = f]
  show ?thesis by (auto simp: truthy_def split: if_splits)
qed

section \<open>Pass 1 is sound\<close>

lemma exactDuplicates_members:
  assumes "d \<in> set (exactDuplicates H fileInfos)" and "a \<in> set (ed_files d)"
  shows "a \<in> set fileInfos \<and> f_size a = ed_size d \<and> 0 < ed_size d
    \<and> H (f_path a) = Some (ed_hash d) \<and> ed_hash d \<noteq> [] \<and> 1 < length (ed_files d)"
proof -
  from assms(1) obtain sg where sg: "sg \<in> set (sizeGroups fileInfos)" and d: "d \<in> set (exactOfGroup H sg)"
    by (auto simp: exactDuplicates_def)
  obtain sz grp where sg_eq: "sg = (sz, grp)" by (cases sg)
  from sg sg_eq have in_map: "(sz, grp) \<in> set (sizeMap fileInfos)" and pos: "0 < sz"
    by (auto simp: sizeGroups_def)
  from d sg_eq obtain h fs where hf: "(h, fs) \<in> set (hashMap H grp)" and len: "1 < length fs"
    and d_eq: "d = \<lparr>ed_hash = h, ed_size = sz, ed_files = fs\<rparr>"
    by (auto simp: exactOfGroup_def)
  from assms(2) d_eq have a_fs: "a \<in> set fs" by simp
  from hashMap_members [OF hf a_fs]
  have hash: "H (f_path a) = Some h" "h \<noteq> []" and a_grp: "a \<in> set grp" by auto
  from sizeMap_members [OF in_map a_grp]
  have "f_size a = sz" "a \<in> set fileInfos" by auto
  with hash pos len d_eq show ?thesis by simp
qed

text \<open>
  Claim C1. Any two candidates that Pass 1 places in the same exact duplicate group have
  the same size and the same content hash, and that hash is not null: it is the hash
  recorded for the group.
\<close>

theorem exact_group_sound:
  assumes "d \<in> set (exactDuplicates H fileInfos)"
    and "a \<in> set (ed_files d)" and "b \<in> set (ed_files d)"
  shows "f_size a = f_size b \<and> H (f_path a) = H (f_path b) \<and> H (f_path a) = Some (ed_hash d)"
  using exactDuplicates_members [OF assms(1,2)] exactDuplicates_members [OF assms(1,3)]
  by simp

lemma sample_exact:
  "exactDuplicates sampleHash sampleInfos =
     [\<lparr>ed_hash = ascii ''0cc175b9c0f1b6a831c399e269772661'', ed_size = 5242880,
       ed_files = [sampleInfos ! 0, sampleInfos ! 1]\<rparr>]"
  by code_simp

theorem exact_group_sound_witness:
  "hd (exactDuplicates sampleHash sampleInfos) \<in> set (exactDuplicates sampleHash sampleInfos)
   \<and> sampleInfos ! 0 \<in> set (ed_files (hd (exactDuplicates sampleHash sampleInfos)))
   \<and> sampleInfos ! 1 \<in> set (ed_files (hd (exactDuplicates sampleHash sampleInfos)))
   \<and> f_size (sampleInfos ! 0) = f_size (sampleInfos ! 1)
   \<and> sampleHash (f_path (sampleInfos ! 0)) = sampleHash (f_path (sampleInfos ! 1))
   \<and> sampleHash (f_path (sampleInfos ! 0)) = Some (ed_hash (hd (exactDuplicates sampleHash sampleInfos)))"
proof -
  have d: "hd (exactDuplicates sampleHash sampleInfos) \<in> set (exactDuplicates sampleHash sampleInfos)"
    by (simp add: sample_exact)
  have a: "sampleInfos ! 0 \<in> set (ed_files (hd (exactDuplicates sampleHash sampleInfos)))"
    by (simp add: sample_exact)
  have b: "sampleInfos ! 1 \<in> set (ed_files (hd (exactDuplicates sampleHash sampleInfos)))"
    by (simp add: sample_exact)
  from exact_group_sound [OF d a b] d a b show ?thesis by blast
qed

section \<open>Pass 2: which groups are reported\<close>

lemma exactDupPaths_iff:
  "p \<in> set (exactDupPaths eds) \<longleftrightarrow> (\<exists>d\<in>set eds. \<exists>e\<in>set (ed_files d). f_path e = p)"
  by (auto simp: exactDupPaths_def)

lemma findExact_Some:
  assumes "findExact eds f = Some d"
  shows "d \<in> set eds \<and> (\<exists>e\<in>set (ed_files d). f_path e = f_path f)"
  using assms unfolding findExact_def
  by (auto simp: find_Some_iff list_ex_iff in_set_conv_nth)

lemma findExact_None:
  assumes "findExact eds f = None" and "d \<in> set eds" and "e \<in> set (ed_files d)"
  shows "f_path e \<noteq> f_path f"
  using assms unfolding findExact_def
  by (auto simp: find_None_iff list_ex_iff)

lemma uniqueHashes_fold:
  "set (foldl (\<lambda>u f. case findExact eds f of None \<Rightarrow> u | Some ed \<Rightarrow> List.insert (ed_hash ed) u) u0 grp)
     = set u0 \<union> {ed_hash d | d f. f \<in> set grp \<and> findExact eds f = Some d}"
  by (induction grp arbitrary: u0) (auto split: option.splits)

lemma uniqueHashes_distinct_fold:
  "distinct u0 \<Longrightarrow>
   distinct (foldl (\<lambda>u f. case findExact eds f of None \<Rightarrow> u | Some ed \<Rightarrow> List.insert (ed_hash ed) u) u0 grp)"
  by (induction grp arbitrary: u0) (auto split: option.splits)

lemma uniqueHashes_set:
  "set (uniqueHashes eds grp) = {ed_hash d | d f. f \<in> set grp \<and> findExact eds f = Some d}"
  by (simp add: uniqueHashes_def uniqueHashes_fold)

lemma uniqueHashes_distinct: "distinct (uniqueHashes eds grp)"
  by (simp add: uniqueHashes_def uniqueHashes_distinct_fold)

lemma short_distinct_list:
  "distinct xs \<Longrightarrow> length xs \<le> 1 \<longleftrightarrow> (\<forall>x\<in>set xs. \<forall>y\<in>set xs. x = y)"
proof (cases xs)
  case Nil
  then show ?thesis by simp
next
  case (Cons a ys)
  assume "distinct xs"
  with Cons show ?thesis by (cases ys) auto
qed

text \<open>The exact group that \<open>find\<close> returns for a member of an exact group carries that group's hash.\<close>

lemma findExact_member:
  assumes "d \<in> set (exactDuplicates H fileInfos)" and "f \<in> set (ed_files d)"
  shows "\<exists>d'. findExact (exactDuplicates H fileInfos) f = Some d' \<and> ed_hash d' = ed_hash d"
proof (cases "findExact (exactDuplicates H fileInfos) f")
  case None
  from findExact_None [OF None assms] show ?thesis by simp
next
  case (Some d')
  from findExact_Some [OF Some] obtain e where d': "d' \<in> set (exactDuplicates H fileInfos)"
    and e: "e \<in> set (ed_files d')" and pe: "f_path e = f_path f" by auto
  from exactDuplicates_members [OF d' e] have "H (f_path e) = Some (ed_hash d')" by simp
  moreover from exactDuplicates_members [OF assms] have "H (f_path f) = Some (ed_hash d)" by simp
  ultimately show ?thesis using Some pe by simp
qed

lemma skipSemantic_iff:
  assumes dist: "distinct (map f_path fileInfos)" and sub: "set grp \<subseteq> set fileInfos" and ne: "grp \<noteq> []"
  shows "skipSemantic (exactDuplicates H fileInfos) grp \<longleftrightarrow>
     (\<exists>h. \<forall>f\<in>set grp. \<exists>d\<in>set (exactDuplicates H fileInfos). f \<in> set (ed_files d) \<and> ed_hash d = h)"
    (is "?L \<longleftrightarrow> ?R")
proof
  let ?eds = "exactDuplicates H fileInfos"
  assume L: ?L
  then have all: "\<forall>f\<in>set grp. f_path f \<in> set (exactDupPaths ?eds)"
    and len: "length (uniqueHashes ?eds grp) \<le> 1"
    by (auto simp: skipSemantic_def Let_def list_all_iff)
  have found: "\<exists>d. findExact ?eds f = Some d \<and> f \<in> set (ed_files d) \<and> d \<in> set ?eds" if f: "f \<in> set grp" for f
  proof -
    from all f obtain d0 e0 where "d0 \<in> set ?eds" "e0 \<in> set (ed_files d0)" "f_path e0 = f_path f"
      by (auto simp: exactDupPaths_iff)
    then have "findExact ?eds f \<noteq> None" using findExact_None by blast
    then obtain d where d: "findExact ?eds f = Some d" by auto
    from findExact_Some [OF d] obtain e where dm: "d \<in> set ?eds" and e: "e \<in> set (ed_files d)"
      and pe: "f_path e = f_path f" by auto
    from exactDuplicates_members [OF dm e] have "e \<in> set fileInfos" by simp
    moreover from f sub have "f \<in> set fileInfos" by auto
    ultimately have "e = f" using dist pe by (auto simp: distinct_map inj_on_def)
    with d dm e show ?thesis by auto
  qed
  from ne obtain f0 where f0: "f0 \<in> set grp" by (cases grp) auto
  from found [OF f0] obtain d0 where d0: "findExact ?eds f0 = Some d0" by auto
  have "\<forall>f\<in>set grp. \<exists>d\<in>set ?eds. f \<in> set (ed_files d) \<and> ed_hash d = ed_hash d0"
  proof
    fix f assume f: "f \<in> set grp"
    from found [OF f] obtain d where d: "findExact ?eds f = Some d" "f \<in> set (ed_files d)" "d \<in> set ?eds"
      by auto
    from d(1) f have "ed_hash d \<in> set (uniqueHashes ?eds grp)" by (auto simp: uniqueHashes_set)
    moreover from d0 f0 have "ed_hash d0 \<in> set (uniqueHashes ?eds grp)" by (auto simp: uniqueHashes_set)
    ultimately have "ed_hash d = ed_hash d0"
      using len short_distinct_list [OF uniqueHashes_distinct, of ?eds grp] by blast
    with d show "\<exists>d\<in>set ?eds. f \<in> set (ed_files d) \<and> ed_hash d = ed_hash d0" by auto
  qed
  then show ?R by blast
next
  let ?eds = "exactDuplicates H fileInfos"
  assume ?R
  then obtain h where h: "\<forall>f\<in>set grp. \<exists>d\<in>set ?eds. f \<in> set (ed_files d) \<and> ed_hash d = h" by blast
  have all: "\<forall>f\<in>set grp. f_path f \<in> set (exactDupPaths ?eds)"
    using h by (fastforce simp: exactDupPaths_iff)
  have "\<forall>x\<in>set (uniqueHashes ?eds grp). x = h"
  proof
    fix x assume "x \<in> set (uniqueHashes ?eds grp)"
    then obtain d f where f: "f \<in> set grp" and d: "findExact ?eds f = Some d" and x: "x = ed_hash d"
      by (auto simp: uniqueHashes_set)
    from h f obtain d1 where "d1 \<in> set ?eds" "f \<in> set (ed_files d1)" "ed_hash d1 = h" by auto
    with findExact_member [of d1 H fileInfos f] d x show "x = h" by auto
  qed
  then have "length (uniqueHashes ?eds grp) \<le> 1"
    using short_distinct_list [OF uniqueHashes_distinct, of ?eds grp] by metis
  with all show ?L by (simp add: skipSemantic_def Let_def list_all_iff)
qed

lemma semanticDuplicates_iff:
  "\<lparr>sd_key = k, sd_files = grp\<rparr> \<in> set (semanticDuplicates H fileInfos) \<longleftrightarrow>
     (k, grp) \<in> set (songMap fileInfos) \<and> 1 < length grp \<and> \<not> skipSemantic (exactDuplicates H fileInfos) grp"
  by (auto simp: semanticDuplicates_def semanticOf_def)

text \<open>
  Claim C10. A group of the song map with at least two members is left out of the
  semantic duplicates exactly when every member belongs to an exact duplicate group and
  all those groups carry one and the same hash. (Paths are unique: they name directory
  entries.) So a group is reported as soon as one member is outside every exact group, or
  two members lie in exact groups with different hashes.
\<close>

theorem semantic_suppressed_iff:
  assumes "distinct (map f_path fileInfos)"
    and "(k, grp) \<in> set (songMap fileInfos)" and "1 < length grp"
  shows "\<lparr>sd_key = k, sd_files = grp\<rparr> \<notin> set (semanticDuplicates H fileInfos) \<longleftrightarrow>
     (\<exists>h. \<forall>f\<in>set grp. \<exists>d\<in>set (exactDuplicates H fileInfos). f \<in> set (ed_files d) \<and> ed_hash d = h)"
proof -
  from assms(2) have "set grp \<subseteq> set fileInfos" using songMap_members by blast
  moreover from assms(3) have "grp \<noteq> []" by auto
  ultimately show ?thesis
    using skipSemantic_iff [OF assms(1), of grp H] assms(2,3) by (simp add: semanticDuplicates_iff)
qed

lemma sample_songMap: "songMap sampleInfos = [(ascii ''beyond|song'', sampleInfos)]"
  by code_simp

lemma sample_semantic:
  "semanticDuplicates sampleHash sampleInfos = [\<lparr>sd_key = ascii ''beyond|song'', sd_files = sampleInfos\<rparr>]"
  by code_simp

lemma sample_distinct: "distinct (map f_path sampleInfos)"
  by code_simp

theorem semantic_suppressed_iff_witness:
  "distinct (map f_path sampleInfos)
   \<and> (ascii ''beyond|song'', sampleInfos) \<in> set (songMap sampleInfos)
   \<and> 1 < length sampleInfos
   \<and> (\<lparr>sd_key = ascii ''beyond|song'', sd_files = sampleInfos\<rparr>
          \<notin> set (semanticDuplicates sampleHash sampleInfos) \<longleftrightarrow>
        (\<exists>h. \<forall>f\<in>set sampleInfos. \<exists>d\<in>set (exactDuplicates sampleHash sampleInfos).
            f \<in> set (ed_files d) \<and> ed_hash d = h))"
proof -
  have m: "(ascii ''beyond|song'', sampleInfos) \<in> set (songMap sampleInfos)"
    by (simp add: sample_songMap)
  have l: "1 < length sampleInfos"
    by (simp add: sampleInfos_def)
  from semantic_suppressed_iff [OF sample_distinct m l, of sampleHash] sample_distinct m l
  show ?thesis by blast
qed

text \<open>
  Claim C2 does not hold: the members of an exact group are keyed in Pass 2 like every
  other file, and here the first copy is in the exact group and in the semantic group.
\<close>

theorem exact_member_in_semantic_counterexample:
  "fileInfosOf (ascii ''Beyond'') sampleFiles = Some sampleInfos
   \<and> exactDuplicates sampleHash sampleInfos =
       [\<lparr>ed_hash = ascii ''0cc175b9c0f1b6a831c399e269772661'', ed_size = 5242880,
         ed_files = [sampleInfos ! 0, sampleInfos ! 1]\<rparr>]
   \<and> semanticDuplicates sampleHash sampleInfos =
       [\<lparr>sd_key = ascii ''beyond|song'', sd_files = sampleInfos\<rparr>]
   \<and> sampleInfos ! 0 \<in> set (ed_files (hd (exactDuplicates sampleHash sampleInfos)))
   \<and> sampleInfos ! 0 \<in> set (sd_files (hd (semanticDuplicates sampleHash sampleInfos)))"
  by (simp add: sample_fileInfos sample_exact sample_semantic) (simp add: sampleInfos_def)

text \<open>
  Claim C2 as amended. A member of an exact group may appear in a reported semantic
  group, but never among its own exact duplicates alone: the semantic group then has a
  member that is in no exact group with that hash.
\<close>

theorem exact_member_in_semantic:
  assumes "distinct (map f_path fileInfos)"
    and "s \<in> set (semanticDuplicates H fileInfos)"
    and "d \<in> set (exactDuplicates H fileInfos)"
    and "f \<in> set (sd_files s)" and "f \<in> set (ed_files d)"
  shows "\<exists>g\<in>set (sd_files s).
           \<not> (\<exists>d'\<in>set (exactDuplicates H fileInfos). g \<in> set (ed_files d') \<and> ed_hash d' = ed_hash d)"
proof -
  obtain k grp where s_eq: "s = \<lparr>sd_key = k, sd_files = grp\<rparr>" by (cases s)
  with assms(2) have "\<lparr>sd_key = k, sd_files = grp\<rparr> \<in> set (semanticDuplicates H fileInfos)"
    by simp
  then have "(k, grp) \<in> set (songMap fileInfos)" and "1 < length grp"
    and "\<not> skipSemantic (exactDuplicates H fileInfos) grp"
    by (simp_all add: semanticDuplicates_iff)
  with s_eq have m: "(sd_key s, sd_files s) \<in> set (songMap fileInfos)" and l: "1 < length (sd_files s)"
    and ns: "\<not> skipSemantic (exactDuplicates H fileInfos) (sd_files s)"
    by simp_all
  from m have sub: "set (sd_files s) \<subseteq> set fileInfos" using songMap_members by blast
  from l have ne: "sd_files s \<noteq> []" by auto
  from ns skipSemantic_iff [OF assms(1) sub ne, of H]
  have "\<not> (\<forall>g\<in>set (sd_files s). \<exists>d'\<in>set (exactDuplicates H fileInfos).
            g \<in> set (ed_files d') \<and> ed_hash d' = ed_hash d)"
    by blast
  then show ?thesis by blast
qed

theorem exact_member_in_semantic_witness:
  "distinct (map f_path sampleInfos)
   \<and> hd (semanticDuplicates sampleHash sampleInfos) \<in> set (semanticDuplicates sampleHash sampleInfos)
   \<and> hd (exactDuplicates sampleHash sampleInfos) \<in> set (exactDuplicates sampleHash sampleInfos)
   \<and> sampleInfos ! 0 \<in> set (sd_files (hd (semanticDuplicates sampleHash sampleInfos)))
   \<and> sampleInfos ! 0 \<in> set (ed_files (hd (exactDuplicates sampleHash sampleInfos)))
   \<and> (\<exists>g\<in>set (sd_files (hd (semanticDuplicates sampleHash sampleInfos))).
         \<not> (\<exists>d'\<in>set (exactDuplicates sampleHash sampleInfos).
              g \<in> set (ed_files d') \<and> ed_hash d' = ed_hash (hd (exactDuplicates sampleHash sampleInfos))))"
proof -
  have s: "hd (semanticDuplicates sampleHash sampleInfos) \<in> set (semanticDuplicates sampleHash sampleInfos)"
    by (simp add: sample_semantic)
  have d: "hd (exactDuplicates sampleHash sampleInfos) \<in> set (exactDuplicates sampleHash sampleInfos)"
    by (simp add: sample_exact)
  have fs: "sampleInfos ! 0 \<in> set (sd_files (hd (semanticDuplicates sampleHash sampleInfos)))"
    by (simp add: sample_semantic) (simp add: sampleInfos_def)
  have fd: "sampleInfos ! 0 \<in> set (ed_files (hd (exactDuplicates sampleHash sampleInfos)))"
    by (simp add: sample_exact)
  from exact_member_in_semantic [OF sample_distinct s d fs fd] sample_distinct s d fs fd
  show ?thesis by blast
qed

section \<open>The score\<close>






section \<open>The ranking is stable\<close>

lemma sort_insert_set: "set (sort_insert cmp x ys) = insert x (set ys)"
  by (induction ys) auto

lemma js_sort_set: "set (js_sort cmp xs) = set xs"
  by (induction xs) (auto simp: js_sort_def sort_insert_set)

lemma sort_insert_length: "length (sort_insert cmp x ys) = Suc (length ys)"
  by (induction ys) auto

lemma js_sort_length: "length (js_sort cmp xs) = length xs"
  by (induction xs) (auto simp: js_sort_def sort_insert_length)

lemma sort_insert_sorted:
  assumes "sorted_wrt (\<lambda>a b. key b \<le> key a) ys"
  shows "sorted_wrt (\<lambda>a b. (key b :: rat) \<le> key a) (sort_insert (\<lambda>a b. key b - key a) x ys)"
  using assms by (induction ys) (auto simp: sort_insert_set)

lemma js_sort_sorted:
  "sorted_wrt (\<lambda>a b. (key b :: rat) \<le> key a) (js_sort (\<lambda>a b. key b - key a) xs)"
  by (induction xs) (simp_all add: js_sort_def sort_insert_sorted)

lemma sort_insert_stable:
  "filter (\<lambda>y. key y = v) (sort_insert (\<lambda>a b. (key b :: rat) - key a) x ys)
     = filter (\<lambda>y. key y = v) (x # ys)"
  by (induction ys) auto

lemma js_sort_stable:
  "filter (\<lambda>y. key y = v) (js_sort (\<lambda>a b. (key b :: rat) - key a) xs) = filter (\<lambda>y. key y = v) xs"
  by (induction xs) (simp_all add: js_sort_def sort_insert_stable)

text \<open>
  Claim C4 does not hold for the ranking by score: there is no tie-break on the length
  of the name or on a copy mark. Here the two files have the same score; the copy, with
  the longer name, comes first in the listing and stays first, so it is the keeper.
\<close>

theorem rank_tie_break_counterexample:
  "fileInfosOf (ascii ''Beyond'') copyFiles = Some copyInfos
   \<and> map ed_files (exactDuplicates copyHash copyInfos) = [copyInfos]
   \<and> getScore (copyInfos ! 0) = getScore (copyInfos ! 1)
   \<and> length (f_name (copyInfos ! 1)) < length (f_name (copyInfos ! 0))
   \<and> hasCopyMark (f_name (copyInfos ! 0))
   \<and> \<not> hasCopyMark (f_name (copyInfos ! 1))
   \<and> rank copyInfos = copyInfos"
  by code_simp

text \<open>
  Claim C4 as amended. The ranking is by descending score, and members with equal
  scores keep the order of the enumeration (the sort is stable): for every score \<open>v\<close>,
  the members with that score appear in the ranking in the order they had before.
\<close>

theorem rank_ties_keep_order:
  "sorted_wrt (\<lambda>a b. getScore b \<le> getScore a) (rank files)
   \<and> filter (\<lambda>f. getScore f = v) (rank files) = filter (\<lambda>f. getScore f = v) files"
  unfolding rank_def using js_sort_sorted [of getScore files] js_sort_stable [of getScore v files]
  by simp

section \<open>The cleanup script moves lyric files with their audio files\<close>

lemma js_sort_sorted_id:
  assumes "sorted_wrt (\<lambda>a b. (key b :: rat) \<le> key a) ys"
  shows "js_sort (\<lambda>a b. key b - key a) ys = ys"
  using assms
proof (induction ys)
  case Nil
  then show ?case by (simp add: js_sort_def)
next
  case (Cons y ys)
  then have "js_sort (\<lambda>a b. key b - key a) ys = ys" by simp
  then have "js_sort (\<lambda>a b. key b - key a) (y # ys) = sort_insert (\<lambda>a b. key b - key a) y ys"
    by (simp add: js_sort_def)
  also have "\<dots> = y # ys" using Cons.prems by (cases ys) auto
  finally show ?case .
qed

lemma rank_rank: "rank (rank files) = rank files"
  unfolding rank_def by (rule js_sort_sorted_id) (rule js_sort_sorted)

lemma those_Some_map: "those xs = Some ys \<Longrightarrow> xs = map Some ys"
  by (induction xs arbitrary: ys) (auto split: option.splits)

lemma concat_member: "b \<in> set bs \<Longrightarrow> \<exists>p q. concat bs = p @ b @ q"
proof -
  assume "b \<in> set bs"
  then obtain l r where "bs = l @ b # r" by (auto dest: split_list)
  then have "concat bs = concat l @ b @ concat r" by simp
  then show ?thesis by blast
qed

lemma blocks_member:
  assumes "blocks block gs = Some ls" and "g \<in> set gs"
  shows "\<exists>b p q. block g = Some b \<and> ls = p @ b @ q"
proof -
  from assms(1) obtain bs where t: "those (map block gs) = Some bs" and ls: "ls = concat bs"
    by (auto simp: blocks_def)
  from those_Some_map [OF t] have m: "map block gs = map Some bs" .
  from assms(2) have "block g \<in> set (map block gs)" by simp
  with m obtain b where b: "block g = Some b" "b \<in> set bs" by auto
  from concat_member [OF b(2)] ls b(1) show ?thesis by auto
qed

lemma enumerate_member: "x \<in> set xs \<Longrightarrow> \<exists>i. (i, x) \<in> set (enumerate 0 xs)"
proof -
  assume "x \<in> set xs"
  then obtain j where "j < length xs" "xs ! j = x" by (auto simp: in_set_conv_nth)
  then have "(j, x) \<in> set (enumerate 0 xs)" by (simp add: in_set_enumerate_eq)
  then show ?thesis by blast
qed

lemma moveLines_pair:
  assumes "f \<in> set (tl files)" and "f_lrcPath f = Some lrcPath" and "lrcPath \<noteq> []"
  shows "\<exists>p q. moveLines rel groupDir files = p @ [Move (rel (f_path f)) groupDir, Move (rel lrcPath) groupDir] @ q"
proof -
  let ?g = "\<lambda>f. Move (rel (f_path f)) groupDir # lrcLines rel groupDir f"
  from assms(1) have "?g f \<in> set (map ?g (tl files))" by simp
  from concat_member [OF this] obtain p q where "moveLines rel groupDir files = p @ ?g f @ q"
    by (auto simp: moveLines_def)
  moreover have "?g f = [Move (rel (f_path f)) groupDir, Move (rel lrcPath) groupDir]"
    using assms(2,3) by (simp add: lrcLines_def truthy_def)
  ultimately show ?thesis by auto
qed

lemma exactBlock_pair:
  assumes "exactBlock rel (idx, d) = Some b" and "f \<in> set (tl (rank (ed_files d)))"
    and "f_lrcPath f = Some lrcPath" and "lrcPath \<noteq> []"
  shows "\<exists>groupDir p q. b = p @ [Move (rel (f_path f)) groupDir, Move (rel lrcPath) groupDir] @ q"
proof -
  let ?gd = "ascii ''_duplicates_temp/exact/group_'' @ pad3 (idx + 1)"
  from moveLines_pair [OF assms(2,3,4), of rel ?gd] obtain p q where
    m: "moveLines rel ?gd (rank (ed_files d)) = p @ [Move (rel (f_path f)) ?gd, Move (rel lrcPath) ?gd] @ q"
    by blast
  from assms(1) obtain t where "b = [t, Mkdir ?gd] @ moveLines rel ?gd (rank (ed_files d)) @ [Text []]"
    by (auto simp: exactBlock_def Let_def split: list.splits)
  with m have "b = ([t, Mkdir ?gd] @ p) @ [Move (rel (f_path f)) ?gd, Move (rel lrcPath) ?gd] @ (q @ [Text []])"
    by simp
  then show ?thesis by blast
qed

lemma semanticBlock_pair:
  assumes "semanticBlock rel (idx, d) = Some b" and "f \<in> set (tl (rank (sd_files d)))"
    and "f_lrcPath f = Some lrcPath" and "lrcPath \<noteq> []"
  shows "\<exists>groupDir p q. b = p @ [Move (rel (f_path f)) groupDir, Move (rel lrcPath) groupDir] @ q"
proof -
  from assms(1) obtain t gd where b: "b = [t, Mkdir gd] @ moveLines rel gd (rank (sd_files d)) @ [Text []]"
    by (auto simp: semanticBlock_def Let_def split: list.splits)
  from moveLines_pair [OF assms(2,3,4), of rel gd] obtain p q where
    "moveLines rel gd (rank (sd_files d)) = p @ [Move (rel (f_path f)) gd, Move (rel lrcPath) gd] @ q"
    by blast
  with b have "b = ([t, Mkdir gd] @ p) @ [Move (rel (f_path f)) gd, Move (rel lrcPath) gd] @ (q @ [Text []])"
    by simp
  then show ?thesis by blast
qed

lemma cleanupScript_Some:
  assumes "cleanupScript targetDir now rel exacts semantics = Some lines"
  shows "\<exists>es ss.
     blocks (exactBlock rel) (enumerate 0 (map (\<lambda>d. d\<lparr>ed_files := rank (ed_files d)\<rparr>) exacts)) = Some es
   \<and> blocks (semanticBlock rel) (enumerate 0 (map (\<lambda>d. d\<lparr>sd_files := rank (sd_files d)\<rparr>) semantics)) = Some ss
   \<and> lines = scriptHead targetDir now @ (if exacts \<noteq> [] then exactBanner @ es else [])
                  @ (if semantics \<noteq> [] then semanticBanner @ ss else []) @ scriptTail"
proof -
  let ?E = "map (\<lambda>d. d\<lparr>ed_files := rank (ed_files d)\<rparr>) exacts"
  let ?S = "map (\<lambda>d. d\<lparr>sd_files := rank (sd_files d)\<rparr>) semantics"
  have eq: "cleanupScript targetDir now rel exacts semantics =
     (case blocks (exactBlock rel) (enumerate 0 ?E) of
           None \<Rightarrow> None
         | Some es \<Rightarrow>
             (case blocks (semanticBlock rel) (enumerate 0 ?S) of
                None \<Rightarrow> None
              | Some ss \<Rightarrow>
                  Some (scriptHead targetDir now
                        @ (if ?E \<noteq> [] then exactBanner @ es else [])
                        @ (if ?S \<noteq> [] then semanticBanner @ ss else [])
                        @ scriptTail)))"
    by (simp add: cleanupScript_def reportSorted_def)
  show ?thesis
  proof (cases "blocks (exactBlock rel) (enumerate 0 ?E)")
    case None
    with eq assms show ?thesis by simp
  next
    case es: (Some es)
    show ?thesis
    proof (cases "blocks (semanticBlock rel) (enumerate 0 ?S)")
      case None
      with eq es assms show ?thesis by simp
    next
      case (Some ss)
      with eq es assms show ?thesis by simp
    qed
  qed
qed

lemma script_pairs:
  assumes script: "cleanupScript targetDir now rel exacts semantics = Some lines"
    and grp: "grp \<in> ed_files ` set exacts \<union> sd_files ` set semantics"
    and f: "f \<in> set (tl (rank grp))"
    and lrc: "f_lrcPath f = Some lrcPath" "lrcPath \<noteq> []"
  shows "\<exists>groupDir pre post.
           lines = pre @ [Move (rel (f_path f)) groupDir, Move (rel lrcPath) groupDir] @ post"
proof -
  let ?E = "map (\<lambda>d. d\<lparr>ed_files := rank (ed_files d)\<rparr>) exacts"
  let ?S = "map (\<lambda>d. d\<lparr>sd_files := rank (sd_files d)\<rparr>) semantics"
  from cleanupScript_Some [OF script] obtain es ss where es: "blocks (exactBlock rel) (enumerate 0 ?E) = Some es"
    and ss: "blocks (semanticBlock rel) (enumerate 0 ?S) = Some ss"
    and lines: "lines = scriptHead targetDir now @ (if exacts \<noteq> [] then exactBanner @ es else [])
                  @ (if semantics \<noteq> [] then semanticBanner @ ss else []) @ scriptTail"
    by blast
  from grp show ?thesis
  proof
    assume "grp \<in> ed_files ` set exacts"
    then obtain d where d: "d \<in> set exacts" and g: "grp = ed_files d" by auto
    let ?d = "d\<lparr>ed_files := rank (ed_files d)\<rparr>"
    from d have ne: "exacts \<noteq> []" by auto
    from d have "?d \<in> set ?E" unfolding set_map by (rule imageI)
    from enumerate_member [OF this] obtain i where "(i, ?d) \<in> set (enumerate 0 ?E)" ..
    from blocks_member [OF es this] obtain b p q where b: "exactBlock rel (i, ?d) = Some b"
      and e: "es = p @ b @ q" by blast
    from f g have "f \<in> set (tl (rank (ed_files ?d)))" by (simp add: rank_rank)
    from exactBlock_pair [OF b this lrc] obtain gd p' q' where
      b': "b = p' @ [Move (rel (f_path f)) gd, Move (rel lrcPath) gd] @ q'" by blast
    have "lines = (scriptHead targetDir now @ exactBanner @ p @ p')
        @ [Move (rel (f_path f)) gd, Move (rel lrcPath) gd]
        @ (q' @ q @ (if semantics \<noteq> [] then semanticBanner @ ss else []) @ scriptTail)"
      unfolding lines e b' using ne by simp
    then show ?thesis by blast
  next
    assume "grp \<in> sd_files ` set semantics"
    then obtain d where d: "d \<in> set semantics" and g: "grp = sd_files d" by auto
    let ?d = "d\<lparr>sd_files := rank (sd_files d)\<rparr>"
    from d have ne: "semantics \<noteq> []" by auto
    from d have "?d \<in> set ?S" unfolding set_map by (rule imageI)
    from enumerate_member [OF this] obtain i where "(i, ?d) \<in> set (enumerate 0 ?S)" ..
    from blocks_member [OF ss this] obtain b p q where b: "semanticBlock rel (i, ?d) = Some b"
      and e: "ss = p @ b @ q" by blast
    from f g have "f \<in> set (tl (rank (sd_files ?d)))" by (simp add: rank_rank)
    from semanticBlock_pair [OF b this lrc] obtain gd p' q' where
      b': "b = p' @ [Move (rel (f_path f)) gd, Move (rel lrcPath) gd] @ q'" by blast
    have "lines = (scriptHead targetDir now @ (if exacts \<noteq> [] then exactBanner @ es else [])
          @ semanticBanner @ p @ p')
        @ [Move (rel (f_path f)) gd, Move (rel lrcPath) gd]
        @ (q' @ q @ scriptTail)"
      unfolding lines e b' using ne by simp
    then show ?thesis by blast
  qed
qed

lemma getSongKey_has_bar: "124 \<in> set (getSongKey artist title dirArtist)"
  by (simp add: getSongKey_def Let_def)

lemma fileInfosOf_keys:
  assumes "fileInfosOf dirArtist audioFiles = Some fileInfos" and "f \<in> set fileInfos"
  shows "124 \<in> set (f_key f)"
proof -
  from assms(1) have "map (fileInfoOf dirArtist) audioFiles = map Some fileInfos"
    by (simp add: fileInfosOf_def those_Some_map)
  moreover from assms(2) have "Some f \<in> set (map Some fileInfos)" by simp
  ultimately obtain a where "fileInfoOf dirArtist a = Some f" by (metis (no_types) imageE set_map)
  then show ?thesis
    by (auto simp: fileInfoOf_def getSongKey_has_bar split: option.splits)
qed

lemma splitBar_ne: "splitBar acc s \<noteq> []"
  by (induction s arbitrary: acc) auto

lemma splitBar_bar: "124 \<in> set s \<Longrightarrow> \<exists>a t r. splitBar acc s = a # t # r"
proof (induction s arbitrary: acc)
  case Nil
  then show ?case by simp
next
  case (Cons c cs)
  show ?case
  proof (cases "c = 124")
    case True
    obtain t r where "splitBar [] cs = t # r" using splitBar_ne [of "[]" cs] by (cases "splitBar [] cs") auto
    with True show ?thesis by simp
  next
    case False
    with Cons.prems have "124 \<in> set cs" by simp
    from Cons.IH [OF this, of "acc @ [c]"] False show ?thesis by simp
  qed
qed

lemma rank_Nil: "rank files = [] \<longleftrightarrow> files = []"
  using js_sort_length [of "\<lambda>a b. getScore b - getScore a" files] by (auto simp: rank_def)

lemma exactBlock_Some: "ed_files d \<noteq> [] \<Longrightarrow> \<exists>b. exactBlock rel (i, d) = Some b"
  by (cases "rank (ed_files d)") (simp_all add: exactBlock_def rank_Nil Let_def)

lemma semanticBlock_Some:
  assumes "124 \<in> set (sd_key d)"
  shows "\<exists>b. semanticBlock rel (i, d) = Some b"
proof -
  from splitBar_bar [OF assms, of "[]"] obtain a t r where "splitBar [] (sd_key d) = a # t # r" by blast
  then show ?thesis by (simp add: semanticBlock_def Let_def)
qed

lemma those_all_Some: "(\<And>x. x \<in> set xs \<Longrightarrow> \<exists>y. x = Some y) \<Longrightarrow> \<exists>ys. those xs = Some ys"
proof (induction xs)
  case Nil
  then show ?case by simp
next
  case (Cons x xs)
  from Cons.prems [of x] obtain y where "x = Some y" by auto
  moreover from Cons have "\<exists>ys. those xs = Some ys" by auto
  ultimately show ?case by auto
qed

lemma blocks_Some:
  assumes "\<And>g. g \<in> set gs \<Longrightarrow> \<exists>b. block g = Some b"
  shows "\<exists>ls. blocks block gs = Some ls"
proof -
  have "\<exists>ys. those (map block gs) = Some ys"
    by (rule those_all_Some) (use assms in auto)
  then show ?thesis by (auto simp: blocks_def)
qed

lemma cleanupScript_total:
  assumes e: "\<And>d. d \<in> set exacts \<Longrightarrow> ed_files d \<noteq> []"
    and s: "\<And>d. d \<in> set semantics \<Longrightarrow> 124 \<in> set (sd_key d)"
  shows "\<exists>lines. cleanupScript targetDir now rel exacts semantics = Some lines"
proof -
  let ?E = "map (\<lambda>d. d\<lparr>ed_files := rank (ed_files d)\<rparr>) exacts"
  let ?S = "map (\<lambda>d. d\<lparr>sd_files := rank (sd_files d)\<rparr>) semantics"
  have "\<exists>b. exactBlock rel g = Some b" if "g \<in> set (enumerate 0 ?E)" for g
  proof -
    obtain i d' where g: "g = (i, d')" by (cases g)
    with that have "d' \<in> set ?E" by (auto simp: in_set_enumerate_eq)
    then obtain d where "d \<in> set exacts" "d' = d\<lparr>ed_files := rank (ed_files d)\<rparr>" by auto
    with e [of d] have "ed_files d' \<noteq> []" by (simp add: rank_Nil)
    from exactBlock_Some [OF this] g show ?thesis by simp
  qed
  from blocks_Some [of "enumerate 0 ?E" "exactBlock rel", OF this]
  obtain es where es: "blocks (exactBlock rel) (enumerate 0 ?E) = Some es" by blast
  have "\<exists>b. semanticBlock rel g = Some b" if "g \<in> set (enumerate 0 ?S)" for g
  proof -
    obtain i d' where g: "g = (i, d')" by (cases g)
    with that have "d' \<in> set ?S" by (auto simp: in_set_enumerate_eq)
    then obtain d where "d \<in> set semantics" "d' = d\<lparr>sd_files := rank (sd_files d)\<rparr>" by auto
    with s [of d] have "124 \<in> set (sd_key d')" by simp
    from semanticBlock_Some [OF this] g show ?thesis by simp
  qed
  from blocks_Some [of "enumerate 0 ?S" "semanticBlock rel", OF this]
  obtain ss where ss: "blocks (semanticBlock rel) (enumerate 0 ?S) = Some ss" by blast
  from es ss show ?thesis by (simp add: cleanupScript_def reportSorted_def)
qed

lemma semanticDuplicates_key:
  assumes "d \<in> set (semanticDuplicates H fileInfos)"
  shows "\<exists>f\<in>set fileInfos. f_key f = sd_key d"
proof -
  obtain k grp where d: "d = \<lparr>sd_key = k, sd_files = grp\<rparr>" by (cases d)
  with assms have m: "(k, grp) \<in> set (songMap fileInfos)" and l: "1 < length grp"
    by (simp_all add: semanticDuplicates_iff)
  from l obtain f where "f \<in> set grp" by (cases grp) auto
  from songMap_members [OF m this] d show ?thesis by auto
qed

text \<open>
  Claim C9. The cleanup script is always produced for the groups of the two passes
  (every key of \<open>getSongKey\<close> has a bar, see \<open>fileInfosOf_keys\<close>), and for every
  removable member of a group, that is every member but the first in rank order, that
  has a lyric file, the line that moves the audio file is followed at once by the line
  that moves the lyric file into the same directory.
\<close>

theorem lrc_moved_with_audio:
  assumes keys: "\<forall>f\<in>set fileInfos. 124 \<in> set (f_key f)"
    and grp: "grp \<in> ed_files ` set (exactDuplicates H fileInfos) \<union> sd_files ` set (semanticDuplicates H fileInfos)"
    and f: "f \<in> set (tl (rank grp))"
    and lrc: "f_lrcPath f = Some lrcPath" "lrcPath \<noteq> []"
  shows "\<exists>lines groupDir pre post.
           cleanupScript targetDir now rel (exactDuplicates H fileInfos) (semanticDuplicates H fileInfos) = Some lines
           \<and> lines = pre @ [Move (rel (f_path f)) groupDir, Move (rel lrcPath) groupDir] @ post"
proof -
  have e: "ed_files d \<noteq> []" if "d \<in> set (exactDuplicates H fileInfos)" for d
  proof -
    have "1 < length (ed_files d) \<or> ed_files d = []" 
      using exactDuplicates_members [OF that] by (cases "ed_files d") auto
    moreover have "ed_files d \<noteq> []"
    proof
      assume "ed_files d = []"
      from that obtain sg where "d \<in> set (exactOfGroup H sg)" by (auto simp: exactDuplicates_def)
      then have "1 < length (ed_files d)" by (auto simp: exactOfGroup_def)
      with \<open>ed_files d = []\<close> show False by simp
    qed
    ultimately show ?thesis by simp
  qed
  have s: "124 \<in> set (sd_key d)" if "d \<in> set (semanticDuplicates H fileInfos)" for d
    using semanticDuplicates_key [OF that] keys by auto
  from cleanupScript_total [of "exactDuplicates H fileInfos" "semanticDuplicates H fileInfos" targetDir now rel, OF e s]
  obtain lines where l: "cleanupScript targetDir now rel (exactDuplicates H fileInfos) (semanticDuplicates H fileInfos) = Some lines"
    by blast
  from script_pairs [OF l grp f lrc] l show ?thesis by blast
qed

theorem lrc_moved_with_audio_witness:
  "list_all (\<lambda>f. 124 \<in> set (f_key f)) sampleInfos
   \<and> [sampleInfos ! 0, sampleInfos ! 1]
        \<in> ed_files ` set (exactDuplicates sampleHash sampleInfos)
          \<union> sd_files ` set (semanticDuplicates sampleHash sampleInfos)
   \<and> sampleInfos ! 1 \<in> set (tl (rank [sampleInfos ! 0, sampleInfos ! 1]))
   \<and> f_lrcPath (sampleInfos ! 1) = Some (ascii ''/music/Beyond/cd2/Beyond - Song.lrc'')
   \<and> (\<exists>lines groupDir pre post.
         cleanupScript (ascii ''/music/Beyond'') (ascii ''11/3/2026, 9:00:00 AM'') (drop 14)
             (exactDuplicates sampleHash sampleInfos) (semanticDuplicates sampleHash sampleInfos) = Some lines
         \<and> lines = pre @ [Move (drop 14 (f_path (sampleInfos ! 1))) groupDir,
                            Move (drop 14 (ascii ''/music/Beyond/cd2/Beyond - Song.lrc'')) groupDir] @ post)"
proof -
  have k: "list_all (\<lambda>f. 124 \<in> set (f_key f)) sampleInfos"
    by code_simp
  then have k': "\<forall>f\<in>set sampleInfos. 124 \<in> set (f_key f)"
    by (simp add: list_all_iff)
  have g: "[sampleInfos ! 0, sampleInfos ! 1]
        \<in> ed_files ` set (exactDuplicates sampleHash sampleInfos)
          \<union> sd_files ` set (semanticDuplicates sampleHash sampleInfos)"
    by (simp add: sample_exact)
  have r: "sampleInfos ! 1 \<in> set (tl (rank [sampleInfos ! 0, sampleInfos ! 1]))"
    by code_simp
  have l: "f_lrcPath (sampleInfos ! 1) = Some (ascii ''/music/Beyond/cd2/Beyond - Song.lrc'')"
    by code_simp
  have n: "ascii ''/music/Beyond/cd2/Beyond - Song.lrc'' \<noteq> []"
    by (simp add: ascii_def)
  from lrc_moved_with_audio [OF k' g r l n] k g r l show ?thesis by blast
qed

section \<open>The suffix loops terminate\<close>

lemma replaceTail_take: "\<exists>i. replaceTail M s = take i s"
  by (cases "firstMatch M s") (auto simp: replaceTail_def intro: exI [of _ "length s"])

lemma replaceTail_shorter: "replaceTail M s = s \<or> length (replaceTail M s) < length s"
proof -
  obtain i where i: "replaceTail M s = take i s" using replaceTail_take by blast
  show ?thesis
  proof (cases "i < length s")
    case True
    with i show ?thesis by simp
  next
    case False
    with i show ?thesis by simp
  qed
qed

lemma suffixLoop_returns: "\<exists>r. suffixLoop s = Some r \<and> length r \<le> length s"
proof (induction s rule: measure_induct_rule [where f = length])
  case (less s)
  let ?r = "replaceTail suffixPattern s"
  show ?case
  proof (cases "?r = s")
    case True
    then have "suffixLoop s = Some s" by (subst suffixLoop.simps) simp
    then show ?thesis by simp
  next
    case False
    with replaceTail_shorter [of suffixPattern s] have lt: "length ?r < length s" by simp
    from less [OF lt] obtain r where r: "suffixLoop ?r = Some r" "length r \<le> length ?r" by blast
    from False have "suffixLoop s = suffixLoop ?r" by (subst suffixLoop.simps) (simp add: Let_def)
    with r lt show ?thesis by simp
  qed
qed

lemma suffixLoop_sk_returns: "\<exists>r. suffixLoop_sk s = Some r \<and> length r \<le> length s"
proof (induction s rule: measure_induct_rule [where f = length])
  case (less s)
  let ?b = "replaceTail bracketPattern s"
  let ?r = "replaceTail parenPattern ?b"
  have le: "length ?r \<le> length s"
    using replaceTail_shorter [of bracketPattern s] replaceTail_shorter [of parenPattern ?b] by auto
  show ?case
  proof (cases "?r = s")
    case True
    then have "suffixLoop_sk s = Some s" by (subst suffixLoop_sk.simps) simp
    then show ?thesis by simp
  next
    case False
    have lt: "length ?r < length s"
    proof (cases "?b = s")
      case True
      with False replaceTail_shorter [of parenPattern ?b] show ?thesis by auto
    next
      case b: False
      with replaceTail_shorter [of bracketPattern s] have "length ?b < length s" by simp
      with replaceTail_shorter [of parenPattern ?b] show ?thesis by auto
    qed
    from less [OF lt] obtain r where r: "suffixLoop_sk ?r = Some r" "length r \<le> length ?r" by blast
    from False have "suffixLoop_sk s = suffixLoop_sk ?r" by (subst suffixLoop_sk.simps) (simp add: Let_def)
    with r lt show ?thesis by simp
  qed
qed

text \<open>
  Claim C6. Both suffix loops return on every input: an iteration either leaves the
  string as it is, and the loop ends, or makes it strictly shorter (it cuts the string
  at the start of a trailing bracketed block). So \<open>removeDescriptiveSuffix\<close> is total, in
  the enhanced detector and in the song key scripts.
\<close>

theorem suffix_loops_terminate:
  "(\<exists>r. removeDescriptiveSuffix name = Some r)
   \<and> (\<exists>r. removeDescriptiveSuffix_sk name = Some r)
   \<and> (replaceTail suffixPattern s = s \<or> length (replaceTail suffixPattern s) < length s)
   \<and> (replaceTail parenPattern (replaceTail bracketPattern s) = s
        \<or> length (replaceTail parenPattern (replaceTail bracketPattern s)) < length s)"
proof -
  from suffixLoop_returns [of name] have 1: "\<exists>r. removeDescriptiveSuffix name = Some r"
    by (auto simp: removeDescriptiveSuffix_def)
  from suffixLoop_sk_returns [of name] have 2: "\<exists>r. removeDescriptiveSuffix_sk name = Some r"
    by (auto simp: removeDescriptiveSuffix_sk_def)
  have 3: "replaceTail parenPattern (replaceTail bracketPattern s) = s
        \<or> length (replaceTail parenPattern (replaceTail bracketPattern s)) < length s"
    using replaceTail_shorter [of bracketPattern s]
      replaceTail_shorter [of parenPattern "replaceTail bracketPattern s"] by auto
  from 1 2 3 replaceTail_shorter [of suffixPattern s] show ?thesis by blast
qed

section \<open>Short titles without an artist\<close>









lemma mv_groups: "semanticGroups_mv {} mvFiles = [(ascii ''beyond|abc'', [mvFiles ! 3, mvFiles ! 4])]"
  by code_simp

section \<open>The parsers fall back\<close>





section \<open>The title of the key, normalized again\<close>

subsection \<open>Roman numerals are whole runs of letters\<close>

























subsection \<open>Folding the script again changes nothing\<close>











subsection \<open>Lower-casing and removing white space make no new numeral\<close>



















end
